theory Spec2Isabelle
  imports Complex_Main
begin

section \<open>JavaScript values used by the library\<close>

text \<open>
  Strings are \<^typ>\<open>string\<close>; an optional property \<open>p?: T\<close> is a \<^typ>\<open>'a option\<close>
  with \<open>None\<close> for \<open>undefined\<close>. The library never computes with a \<open>number\<close>:
  it tests it for truthiness and passes it on. A finite number is therefore represented
  by a rational (the literal \<open>0.8\<close> by \<open>4 / 5\<close>), next to \<open>NaN\<close> and the two infinities.
\<close>

datatype number = NaN | PosInfinity | NegInfinity | Finite rat

text \<open>Truthiness of a number: \<open>0\<close> and \<open>NaN\<close> are falsy.\<close>

fun truthyNum :: "number \<Rightarrow> bool" where
  "truthyNum NaN = False"
| "truthyNum (Finite r) = (r \<noteq> 0)"
| "truthyNum PosInfinity = True"
| "truthyNum NegInfinity = True"

text \<open>Truthiness of a string: only the empty string is falsy.\<close>

definition truthyStr :: "string \<Rightarrow> bool" where
  "truthyStr s = (s \<noteq> [])"

text \<open>Truthiness of an optional string: \<open>undefined\<close> and \<open>''''\<close> are falsy.\<close>

definition truthy :: "string option \<Rightarrow> bool" where
  "truthy v = (case v of None \<Rightarrow> False | Some s \<Rightarrow> truthyStr s)"

text \<open>\<open>a || b\<close> where \<open>b\<close> is a string: the result is a string.\<close>

definition orElse :: "string option \<Rightarrow> string \<Rightarrow> string" where
  "orElse a b = (case a of None \<Rightarrow> b | Some s \<Rightarrow> if truthyStr s then s else b)"

text \<open>\<open>a || b\<close> where \<open>b\<close> may be \<open>undefined\<close> too.\<close>

definition orOpt :: "string option \<Rightarrow> string option \<Rightarrow> string option" where
  "orOpt a b = (if truthy a then a else b)"

text \<open>
  A template literal \<open>`${v}`\<close> renders \<open>undefined\<close> as the nine characters
  \<open>undefined\<close>.
\<close>

definition interpolate :: "string option \<Rightarrow> string" where
  "interpolate v = (case v of None \<Rightarrow> ''undefined'' | Some s \<Rightarrow> s)"

text \<open>\<open>Array.prototype.join\<close> on an array of strings.\<close>

fun join :: "string \<Rightarrow> string list \<Rightarrow> string" where
  "join sep [] = []"
| "join sep [x] = x"
| "join sep (x # y # ys) = x @ sep @ join sep (y # ys)"

text \<open>\<open>s.startsWith(p)\<close>\<close>

definition startsWith :: "string \<Rightarrow> string \<Rightarrow> bool" where
  "startsWith s p = (take (length p) s = p)"

text \<open>\<open>text.replace(/c/g, r)\<close> for a one-character pattern \<open>c\<close>.\<close>

definition replaceAll :: "char \<Rightarrow> string \<Rightarrow> string \<Rightarrow> string" where
  "replaceAll c r text = concat (map (\<lambda>x. if x = c then r else [x]) text)"

section \<open>Data model (\<open>types/index.ts\<close>)\<close>

text \<open>
  Several interfaces share property names (\<open>title\<close>, \<open>url\<close>, \<open>description\<close>, \<dots>); a
  selector is written with its record's name wherever the name is shared.
\<close>

record Media =
  id :: string
  url :: string
  alt :: "string option"
  filename :: "string option"
  mimeType :: "string option"
  filesize :: "number option"
  width :: "number option"
  height :: "number option"
  createdAt :: string
  updatedAt :: string

record SEOFields =
  title :: "string option"
  description :: "string option"
  "keywords" :: "string option"
  image :: "Media option"
  noIndex :: "bool option"
  noFollow :: "bool option"

datatype Status = draft | published

record Page =
  id :: string
  title :: string
  slug :: string
  status :: Status
  excerpt :: "string option"
  featuredImage :: "Media option"
  seo :: "SEOFields option"
  publishedDate :: "string option"
  createdAt :: string
  updatedAt :: string

datatype Platform = twitter | facebook | instagram | linkedin | youtube

text \<open>
  \<open>socialMedia\<close> is only read through \<open>Object.values\<close>, which follows the insertion order
  of the properties: it is the list of its properties, in that order.
\<close>

type_synonym SocialMedia = "(Platform \<times> string option) list"

record ContactInfo =
  email :: "string option"
  phone :: "string option"
  address :: "string option"

record SiteSettings =
  siteName :: "string option"
  siteDescription :: "string option"
  logo :: "Media option"
  socialMedia :: "SocialMedia option"
  contactInfo :: "ContactInfo option"

record SEOData =
  title :: string
  description :: string
  "keywords" :: "string option"
  image :: "string option"
  url :: "string option"
  type :: "string option"
  structuredData :: "string option"

record Crumb =
  name :: string
  url :: string

text \<open>
  The first argument of \<open>generateSEO\<close> has type \<open>Page | SiteSettings\<close>, and with
  \<open>type === 'page'\<close> it is passed on as the page (\<open>data as Page\<close>) whichever it is.
  Reading a page property of a site-settings object gives \<open>undefined\<close>.
\<close>

datatype Data = PageData Page | SiteData SiteSettings

definition pageProp :: "Data \<Rightarrow> (Page \<Rightarrow> 'a) \<Rightarrow> 'a option" where
  "pageProp data f = (case data of PageData p \<Rightarrow> Some (f p) | SiteData _ \<Rightarrow> None)"

definition pagePropOpt :: "Data \<Rightarrow> (Page \<Rightarrow> 'a option) \<Rightarrow> 'a option" where
  "pagePropOpt data f = (case data of PageData p \<Rightarrow> f p | SiteData _ \<Rightarrow> None)"

text \<open>\<open>page.seo?.f\<close>\<close>

definition seoField :: "Data \<Rightarrow> (SEOFields \<Rightarrow> 'a option) \<Rightarrow> 'a option" where
  "seoField data f = Option.bind (pagePropOpt data seo) f"

text \<open>
  \<open>StructuredDataConfig.page\<close> holds whatever \<open>generateSEO\<close> passes as the page; a caller
  with a page \<open>p\<close> passes \<open>PageData p\<close>.
\<close>

record StructuredDataConfig =
  baseUrl :: string
  siteSettings :: SiteSettings
  page :: "Data option"
  breadcrumbs :: "Crumb list option"

datatype Changefreq = always | hourly | daily | weekly | monthly | yearly | never

record SitemapUrl =
  loc :: string
  lastmod :: string
  changefreq :: Changefreq
  priority :: number

text \<open>\<open>Partial<SitemapConfig>\<close>: every property may be missing.\<close>

record SitemapConfig =
  baseUrl :: "string option"
  includeHomepage :: "bool option"
  homepagePriority :: "number option"
  pagePriority :: "number option"
  defaultChangefreq :: "Changefreq option"

record ProductData =
  name :: string
  description :: string
  price :: "number option"
  currency :: "string option"
  image :: "string option"
  availability :: "string option"

section \<open>JSON values, \<open>JSON.stringify\<close> and \<open>JSON.parse\<close>\<close>

text \<open>
  The objects built by the structured-data builder: strings, numbers, arrays, and
  objects whose properties are kept in insertion order. The type of numbers is a
  parameter: the array that is serialised only contains the positions \<open>index + 1\<close>,
  which are natural numbers, while the product schema carries a price.
\<close>

datatype 'n json =
    JNull
  | JBool bool
  | JNum 'n
  | JStr string
  | JArr "'n json list"
  | JObj "(string \<times> 'n json) list"

text \<open>
  \<open>JSON.stringify(value, null, 2)\<close> on such a value. A natural number is printed in
  decimal (positions are far below \<open>10\<^sup>2\<^sup>1\<close>, where JavaScript would switch to
  exponent notation). A string is quoted as \<open>QuoteJSONString\<close> does: the double quote,
  the backslash and the control characters are escaped, every other character is
  copied. Arrays and objects are broken over lines, each level indented two more
  spaces; the empty array and object are \<open>[]\<close> and \<open>{}\<close>.
\<close>

definition digitChar :: "nat \<Rightarrow> char" where
  "digitChar d = char_of (48 + d)"

fun showNat :: "nat \<Rightarrow> string" where
  "showNat n = (if n < 10 then [digitChar n] else showNat (n div 10) @ [digitChar (n mod 10)])"

definition hexChar :: "nat \<Rightarrow> char" where
  "hexChar d = (if d < 10 then char_of (48 + d) else char_of (87 + d))"

definition quoteChar :: "char \<Rightarrow> string" where
  \<open>quoteChar c =
     (if c = CHR 0x08 then [CHR 0x5C, CHR ''b'']
      else if c = CHR 0x09 then [CHR 0x5C, CHR ''t'']
      else if c = CHR 0x0A then [CHR 0x5C, CHR ''n'']
      else if c = CHR 0x0C then [CHR 0x5C, CHR ''f'']
      else if c = CHR 0x0D then [CHR 0x5C, CHR ''r'']
      else if c = CHR 0x22 then [CHR 0x5C, CHR 0x22]
      else if c = CHR 0x5C then [CHR 0x5C, CHR 0x5C]
      else if (of_char c :: nat) < 32
        then [CHR 0x5C, CHR ''u'', CHR ''0'', CHR ''0'',
              hexChar (of_char c div 16), hexChar (of_char c mod 16)]
      else [c])\<close>

definition quoteJSONString :: "string \<Rightarrow> string" where
  "quoteJSONString s = CHR 0x22 # concat (map quoteChar s) @ [CHR 0x22]"

definition newlineIndent :: "nat \<Rightarrow> string" where
  "newlineIndent k = CHR 0x0A # replicate k (CHR '' '')"

fun stringifyAt :: "nat \<Rightarrow> nat json \<Rightarrow> string" where
  "stringifyAt ind JNull = ''null''"
| "stringifyAt ind (JBool b) = (if b then ''true'' else ''false'')"
| "stringifyAt ind (JNum n) = showNat n"
| "stringifyAt ind (JStr s) = quoteJSONString s"
| "stringifyAt ind (JArr vs) =
     (if vs = [] then ''[]''
      else ''['' @ newlineIndent (ind + 2)
           @ join (CHR '','' # newlineIndent (ind + 2)) (map (stringifyAt (ind + 2)) vs)
           @ newlineIndent ind @ '']'')"
| "stringifyAt ind (JObj kvs) =
     (if kvs = [] then ''{}''
      else ''{'' @ newlineIndent (ind + 2)
           @ join (CHR '','' # newlineIndent (ind + 2))
               (map (\<lambda>(k, v). quoteJSONString k @ '': '' @ stringifyAt (ind + 2) v) kvs)
           @ newlineIndent ind @ ''}'')"

definition JSON_stringify :: "nat json \<Rightarrow> string" where
  "JSON_stringify v = stringifyAt 0 v"

text \<open>
  \<open>JSON.parse\<close>, for the texts whose numbers are naturals: a recursive-descent parser
  that skips white space between tokens. It runs on fuel, and \<open>JSON_parse\<close> gives it
  the length of the text; a syntax error, a number that is not a natural, or a
  four-digit hexadecimal escape beyond the characters of \<^typ>\<open>string\<close> is \<open>None\<close>.
\<close>

definition isWs :: "char \<Rightarrow> bool" where
  "isWs c = (c = CHR '' '' \<or> c = CHR 0x0A \<or> c = CHR 0x0D \<or> c = CHR 0x09)"

definition skipWs :: "string \<Rightarrow> string" where
  "skipWs s = dropWhile isWs s"

definition isDigit :: "char \<Rightarrow> bool" where
  "isDigit c = (48 \<le> (of_char c :: nat) \<and> (of_char c :: nat) \<le> 57)"

definition readNat :: "string \<Rightarrow> nat" where
  "readNat ds = foldl (\<lambda>a d. 10 * a + (of_char d - 48)) 0 ds"

definition hexVal :: "char \<Rightarrow> nat option" where
  "hexVal c =
     (let n = (of_char c :: nat)
      in if 48 \<le> n \<and> n \<le> 57 then Some (n - 48)
         else if 97 \<le> n \<and> n \<le> 102 then Some (n - 87)
         else if 65 \<le> n \<and> n \<le> 70 then Some (n - 55)
         else None)"

definition unescape :: "char \<Rightarrow> char option" where
  \<open>unescape e =
     (if e = CHR 0x22 then Some (CHR 0x22)
      else if e = CHR 0x5C then Some (CHR 0x5C)
      else if e = CHR ''/'' then Some (CHR ''/'')
      else if e = CHR ''b'' then Some (CHR 0x08)
      else if e = CHR ''f'' then Some (CHR 0x0C)
      else if e = CHR ''n'' then Some (CHR 0x0A)
      else if e = CHR ''r'' then Some (CHR 0x0D)
      else if e = CHR ''t'' then Some (CHR 0x09)
      else None)\<close>

definition hex4 :: "string \<Rightarrow> nat option" where
  "hex4 s =
     (case map hexVal s of
        [Some a, Some b, Some c, Some d] \<Rightarrow> Some (((a * 16 + b) * 16 + c) * 16 + d)
      | _ \<Rightarrow> None)"

definition consChar :: "char \<Rightarrow> (string \<times> string) option \<Rightarrow> (string \<times> string) option" where
  "consChar c r = map_option (\<lambda>(s, rest). (c # s, rest)) r"

function parseChars :: "string \<Rightarrow> (string \<times> string) option" where
  "parseChars [] = None"
| "parseChars (c # cs) =
     (if c = CHR 0x22 then Some ([], cs)
      else if c = CHR 0x5C then
        (case cs of
           [] \<Rightarrow> None
         | e # r \<Rightarrow>
             if e = CHR ''u'' then
               (case hex4 (take 4 r) of
                  None \<Rightarrow> None
                | Some n \<Rightarrow> if n < 256 then consChar (char_of n) (parseChars (drop 4 r)) else None)
             else
               (case unescape e of
                  None \<Rightarrow> None
                | Some x \<Rightarrow> consChar x (parseChars r)))
      else if (of_char c :: nat) < 32 then None
      else consChar c (parseChars cs))"
  by pat_completeness auto
termination
  by (relation "measure length") auto

definition parseNumber :: "string \<Rightarrow> (nat json \<times> string) option" where
  \<open>parseNumber s =
     (let ds = takeWhile isDigit s; r = dropWhile isDigit s
      in if ds = [] then None
         else if 1 < length ds \<and> hd ds = CHR ''0'' then None
         else if r \<noteq> [] \<and> hd r \<in> {CHR ''.'', CHR ''e'', CHR ''E''} then None
         else Some (JNum (readNat ds), r))\<close>

definition parseLiteral :: "string \<Rightarrow> (nat json \<times> string) option" where
  "parseLiteral s =
     (if take 4 s = ''null'' then Some (JNull, drop 4 s)
      else if take 4 s = ''true'' then Some (JBool True, drop 4 s)
      else if take 5 s = ''false'' then Some (JBool False, drop 5 s)
      else None)"

text \<open>A later property with the same key replaces the value of the earlier one.\<close>

fun setProp :: "string \<Rightarrow> 'a \<Rightarrow> (string \<times> 'a) list \<Rightarrow> (string \<times> 'a) list" where
  "setProp k v [] = [(k, v)]"
| "setProp k v ((k', v') # kvs) = (if k = k' then (k, v) # kvs else (k', v') # setProp k v kvs)"

definition objectOf :: "(string \<times> 'a) list \<Rightarrow> (string \<times> 'a) list" where
  "objectOf kvs = foldl (\<lambda>obj (k, v). setProp k v obj) [] kvs"

fun parseValue :: "nat \<Rightarrow> string \<Rightarrow> (nat json \<times> string) option"
and parseElems :: "nat \<Rightarrow> string \<Rightarrow> (nat json list \<times> string) option"
and parseMembers :: "nat \<Rightarrow> string \<Rightarrow> ((string \<times> nat json) list \<times> string) option"
where
  "parseValue 0 s = None"
| "parseValue (Suc f) s =
     (case skipWs s of
        [] \<Rightarrow> None
      | c # cs \<Rightarrow>
          if c = CHR ''['' then
            (case skipWs cs of
               [] \<Rightarrow> None
             | d # ds \<Rightarrow>
                 if d = CHR '']'' then Some (JArr [], ds)
                 else map_option (\<lambda>(vs, r). (JArr vs, r)) (parseElems f cs))
          else if c = CHR ''{'' then
            (case skipWs cs of
               [] \<Rightarrow> None
             | d # ds \<Rightarrow>
                 if d = CHR ''}'' then Some (JObj [], ds)
                 else map_option (\<lambda>(kvs, r). (JObj (objectOf kvs), r)) (parseMembers f cs))
          else if c = CHR 0x22 then map_option (\<lambda>(x, r). (JStr x, r)) (parseChars cs)
          else if isDigit c then parseNumber (c # cs)
          else parseLiteral (c # cs))"
| "parseElems 0 s = None"
| "parseElems (Suc f) s =
     (case parseValue f s of
        None \<Rightarrow> None
      | Some (v, r) \<Rightarrow>
          (case skipWs r of
             [] \<Rightarrow> None
           | c # cs \<Rightarrow>
               if c = CHR '','' then map_option (\<lambda>(vs, r'). (v # vs, r')) (parseElems f cs)
               else if c = CHR '']'' then Some ([v], cs)
               else None))"
| "parseMembers 0 s = None"
| "parseMembers (Suc f) s =
     (case skipWs s of
        [] \<Rightarrow> None
      | c # cs \<Rightarrow>
          if c = CHR 0x22 then
            (case parseChars cs of
               None \<Rightarrow> None
             | Some (k, r) \<Rightarrow>
                 (case skipWs r of
                    [] \<Rightarrow> None
                  | d # ds \<Rightarrow>
                      if d = CHR '':'' then
                        (case parseValue f ds of
                           None \<Rightarrow> None
                         | Some (v, r') \<Rightarrow>
                             (case skipWs r' of
                                [] \<Rightarrow> None
                              | e # es \<Rightarrow>
                                  if e = CHR '','' then
                                    map_option (\<lambda>(kvs, r''). ((k, v) # kvs, r'')) (parseMembers f es)
                                  else if e = CHR ''}'' then Some ([(k, v)], es)
                                  else None))
                      else None))
          else None)"

definition JSON_parse :: "string \<Rightarrow> nat json option" where
  "JSON_parse text =
     (case parseValue (length text) text of
        None \<Rightarrow> None
      | Some (v, r) \<Rightarrow> if skipWs r = [] then Some v else None)"

text \<open>
  Three notions used in the proofs about the parser: a value is well formed when no
  object in it has two properties with the same key; \<open>memberText\<close> is the text of one
  property; and the text after a printed value is \<open>delimited\<close> when it is empty or
  begins with a comma or a newline.
\<close>

fun wellFormed :: "'n json \<Rightarrow> bool" where
  "wellFormed (JArr vs) = (\<forall>v\<in>set vs. wellFormed v)"
| "wellFormed (JObj kvs) = (distinct (map fst kvs) \<and> (\<forall>kv\<in>set kvs. wellFormed (snd kv)))"
| "wellFormed _ = True"

definition memberText :: "nat \<Rightarrow> string \<times> nat json \<Rightarrow> string" where
  "memberText k = (\<lambda>(key, v). quoteJSONString key @ '': '' @ stringifyAt k v)"

definition delimited :: "string \<Rightarrow> bool" where
  "delimited rest = (case rest of [] \<Rightarrow> True | c # _ \<Rightarrow> c = CHR '','' \<or> c = CHR 0x0A)"

text \<open>
  \<open>wfProps ks kvs\<close>: the properties \<open>kvs\<close> have distinct keys, all among \<open>ks\<close>, and well
  formed values.
\<close>

definition wfProps :: "string list \<Rightarrow> (string \<times> 'n json) list \<Rightarrow> bool" where
  "wfProps ks kvs \<longleftrightarrow>
     distinct (map fst kvs) \<and> (\<forall>kv\<in>set kvs. fst kv \<in> set ks \<and> wellFormed (snd kv))"

section \<open>HTML escaping and the meta-tag renderer (\<open>utils/seo.ts\<close>)\<close>

text \<open>The five replacements run one after the other, in the order of the source.\<close>

definition escapeHtml :: "string \<Rightarrow> string" where
  \<open>escapeHtml text =
     replaceAll (CHR 0x27) ''&#39;''
       (replaceAll (CHR 0x22) ''&quot;''
         (replaceAll (CHR ''>'') ''&gt;''
           (replaceAll (CHR ''<'') ''&lt;''
             (replaceAll (CHR ''&'') ''&amp;'' text))))\<close>

text \<open>
  The table of the specification: the five characters and their entities, every other
  character left alone.
\<close>

definition entityOf :: "char \<Rightarrow> string" where
  \<open>entityOf c =
     (if c = CHR ''&'' then ''&amp;''
      else if c = CHR ''<'' then ''&lt;''
      else if c = CHR ''>'' then ''&gt;''
      else if c = CHR 0x22 then ''&quot;''
      else if c = CHR 0x27 then ''&#39;''
      else [c])\<close>

definition htmlSpecial :: "char set" where
  \<open>htmlSpecial = {CHR ''&'', CHR ''<'', CHR ''>'', CHR 0x22, CHR 0x27}\<close>

text \<open>
  \<open>generateMetaTags\<close>: the array \<open>tags\<close> is built by successive \<open>push\<close> calls and
  joined with a newline followed by four spaces.
\<close>

definition push :: "'a list \<Rightarrow> 'a list \<Rightarrow> 'a list" where
  "push tags new = tags @ new"

definition metaTagList :: "SEOData \<Rightarrow> string list" where
  \<open>metaTagList s =
    (let tags0 = [''<title>'' @ escapeHtml (SEOData.title s) @ ''</title>'',
                  ''<meta name="description" content="'' @ escapeHtml (SEOData.description s) @ ''" />''];
         tags1 = (case SEOData.keywords s of
                    None \<Rightarrow> tags0
                  | Some k \<Rightarrow>
                      if truthyStr k
                      then push tags0 [''<meta name="keywords" content="'' @ escapeHtml k @ ''" />'']
                      else tags0);
         tags2 = push tags1
                  [''<meta property="og:title" content="'' @ escapeHtml (SEOData.title s) @ ''" />'',
                   ''<meta property="og:description" content="'' @ escapeHtml (SEOData.description s) @ ''" />'',
                   ''<meta property="og:type" content="'' @ orElse (type s) ''website'' @ ''" />''];
         tags3 = (case SEOData.url s of
                    None \<Rightarrow> tags2
                  | Some u \<Rightarrow>
                      if truthyStr u
                      then push tags2 [''<meta property="og:url" content="'' @ escapeHtml u @ ''" />'']
                      else tags2);
         tags4 = (case SEOData.image s of
                    None \<Rightarrow> tags3
                  | Some i \<Rightarrow>
                      if truthyStr i
                      then push tags3
                             [''<meta property="og:image" content="'' @ escapeHtml i @ ''" />'',
                              ''<meta name="twitter:card" content="summary_large_image" />'',
                              ''<meta name="twitter:image" content="'' @ escapeHtml i @ ''" />'']
                      else tags3)
     in push tags4
          [''<meta name="twitter:title" content="'' @ escapeHtml (SEOData.title s) @ ''" />'',
           ''<meta name="twitter:description" content="'' @ escapeHtml (SEOData.description s) @ ''" />''])\<close>

definition generateMetaTags :: "SEOData \<Rightarrow> string" where
  "generateMetaTags s = join ''\<newline>    '' (metaTagList s)"

text \<open>
  The order of the tags in the words of the specification: the two leading tags, the
  optional keywords tag, the three Open Graph tags, the optional \<open>og:url\<close>, the optional
  image triplet, the two Twitter tags. \<open>hasTag p tags\<close> says that some tag begins with
  \<open>p\<close>.
\<close>

definition optionalTags :: "string option \<Rightarrow> (string \<Rightarrow> string list) \<Rightarrow> string list" where
  "optionalTags v tags = (case v of None \<Rightarrow> [] | Some x \<Rightarrow> if x = [] then [] else tags x)"

definition tagOrder :: "SEOData \<Rightarrow> string list" where
  \<open>tagOrder s =
     [''<title>'' @ escapeHtml (SEOData.title s) @ ''</title>'',
      ''<meta name="description" content="'' @ escapeHtml (SEOData.description s) @ ''" />'']
     @ optionalTags (SEOData.keywords s)
         (\<lambda>k. [''<meta name="keywords" content="'' @ escapeHtml k @ ''" />''])
     @ [''<meta property="og:title" content="'' @ escapeHtml (SEOData.title s) @ ''" />'',
        ''<meta property="og:description" content="'' @ escapeHtml (SEOData.description s) @ ''" />'',
        ''<meta property="og:type" content="''
           @ (case type s of None \<Rightarrow> ''website'' | Some t \<Rightarrow> if t = [] then ''website'' else t)
           @ ''" />'']
     @ optionalTags (SEOData.url s)
         (\<lambda>u. [''<meta property="og:url" content="'' @ escapeHtml u @ ''" />''])
     @ optionalTags (SEOData.image s)
         (\<lambda>i. [''<meta property="og:image" content="'' @ escapeHtml i @ ''" />'',
               ''<meta name="twitter:card" content="summary_large_image" />'',
               ''<meta name="twitter:image" content="'' @ escapeHtml i @ ''" />''])
     @ [''<meta name="twitter:title" content="'' @ escapeHtml (SEOData.title s) @ ''" />'',
        ''<meta name="twitter:description" content="'' @ escapeHtml (SEOData.description s) @ ''" />'']\<close>

definition hasTag :: "string \<Rightarrow> string list \<Rightarrow> bool" where
  "hasTag p tags = (\<exists>t\<in>set tags. startsWith t p)"

section \<open>Structured data (\<open>utils/structuredData.ts\<close>)\<close>

text \<open>
  A JSON-LD object is a \<open>JObj\<close> whose properties are listed in insertion order. A
  spread \<open>...(c && {\<dots>})\<close> contributes its properties when \<open>c\<close> is truthy and nothing
  otherwise. A property whose value is \<open>undefined\<close> is left out when the object is
  built, since \<open>JSON.stringify\<close> omits it.
\<close>

definition spreadIf :: "bool \<Rightarrow> (string \<times> 'n json) list \<Rightarrow> (string \<times> 'n json) list" where
  "spreadIf c props = (if c then props else [])"

definition strProp :: "string \<Rightarrow> string option \<Rightarrow> (string \<times> 'n json) list" where
  "strProp key v = (case v of None \<Rightarrow> [] | Some s \<Rightarrow> [(key, JStr s)])"

text \<open>\<open>values.filter(Boolean)\<close> on optional strings: the truthy ones remain.\<close>

definition filterBoolean :: "string option list \<Rightarrow> string list" where
  "filterBoolean vs = List.map_filter (\<lambda>v. if truthy v then v else None) vs"

definition logoProp :: "string \<Rightarrow> SiteSettings \<Rightarrow> (string \<times> 'n json) list" where
  "logoProp key s =
     (case logo s of
        None \<Rightarrow> []
      | Some l \<Rightarrow> [(key, JObj [(''@type'', JStr ''ImageObject''), (''url'', JStr (Media.url l))])])"

definition generateWebsiteSchema :: "string \<Rightarrow> SiteSettings \<Rightarrow> 'n json" where
  "generateWebsiteSchema base s =
     JObj [
       (''@context'', JStr ''https://schema.org''),
       (''@type'', JStr ''WebSite''),
       (''name'', JStr (orElse (siteName s) ''Website'')),
       (''description'', JStr (orElse (siteDescription s) ''A modern website'')),
       (''url'', JStr base),
       (''publisher'', JObj (
          [(''@type'', JStr ''Organization''),
           (''name'', JStr (orElse (siteName s) ''Website'')),
           (''description'', JStr (orElse (siteDescription s) ''A modern website'')),
           (''url'', JStr base)]
          @ logoProp ''logo'' s
          @ (case socialMedia s of
               None \<Rightarrow> []
             | Some sm \<Rightarrow>
                 [(''sameAs'', JArr (map JStr (filterBoolean (map snd sm))))])
          @ (case contactInfo s of
               None \<Rightarrow> []
             | Some ci \<Rightarrow>
                 [(''contactPoint'', JObj (
                    [(''@type'', JStr ''ContactPoint'')]
                    @ spreadIf (truthy (email ci)) (strProp ''email'' (email ci))
                    @ spreadIf (truthy (phone ci)) (strProp ''telephone'' (phone ci))))]))),
       (''potentialAction'', JObj [
          (''@type'', JStr ''SearchAction''),
          (''target'', JObj [
             (''@type'', JStr ''EntryPoint''),
             (''urlTemplate'', JStr (base @ ''/search?q={search_term_string}''))]),
          (''query-input'', JStr ''required name=search_term_string'')])]"

definition generateArticleSchema :: "string \<Rightarrow> SiteSettings \<Rightarrow> Data \<Rightarrow> 'n json" where
  "generateArticleSchema base s pg =
     (let pageUrl = base @ ''/pages/'' @ interpolate (pageProp pg slug);
          datePublished = orOpt (pagePropOpt pg publishedDate) (pageProp pg Page.createdAt);
          dateModified = pageProp pg Page.updatedAt
      in JObj (
        [(''@context'', JStr ''https://schema.org''),
         (''@type'', JStr ''Article'')]
        @ strProp ''headline'' (pageProp pg Page.title)
        @ [(''description'',
              JStr (orElse (orOpt (orOpt (seoField pg SEOFields.description) (pagePropOpt pg excerpt))
                                  (siteDescription s))
                           ''A modern website'')),
           (''url'', JStr pageUrl)]
        @ strProp ''datePublished'' datePublished
        @ strProp ''dateModified'' dateModified
        @ [(''author'', JObj [
              (''@type'', JStr ''Organization''),
              (''name'', JStr (orElse (siteName s) ''Website'')),
              (''url'', JStr base)]),
           (''publisher'', JObj (
              [(''@type'', JStr ''Organization''),
               (''name'', JStr (orElse (siteName s) ''Website'')),
               (''url'', JStr base)]
              @ logoProp ''logo'' s)),
           (''mainEntityOfPage'', JObj [
              (''@type'', JStr ''WebPage''),
              (''@id'', JStr pageUrl)])]
        @ (case pagePropOpt pg featuredImage of
             None \<Rightarrow> []
           | Some m \<Rightarrow>
               [(''image'', JObj (
                  [(''@type'', JStr ''ImageObject''),
                   (''url'', JStr (Media.url m))]
                  @ spreadIf (truthy (alt m)) (strProp ''caption'' (alt m))))])
        @ spreadIf (truthy (seoField pg SEOFields.keywords))
            (strProp ''keywords'' (seoField pg SEOFields.keywords))))"

text \<open>\<open>breadcrumbs.map((crumb, index) => \<dots>)\<close>: \<open>index\<close> counts from \<open>0\<close>.\<close>

definition breadcrumbItem :: "string \<Rightarrow> nat \<times> Crumb \<Rightarrow> nat json" where
  "breadcrumbItem base = (\<lambda>(index, crumb).
     JObj [
       (''@type'', JStr ''ListItem''),
       (''position'', JNum (index + 1)),
       (''name'', JStr (Crumb.name crumb)),
       (''item'', JStr (if startsWith (Crumb.url crumb) ''http''
                        then Crumb.url crumb else base @ Crumb.url crumb))])"

definition generateBreadcrumbSchema :: "string \<Rightarrow> Crumb list \<Rightarrow> nat json" where
  "generateBreadcrumbSchema base crumbs =
     JObj [
       (''@context'', JStr ''https://schema.org''),
       (''@type'', JStr ''BreadcrumbList''),
       (''itemListElement'', JArr (map (breadcrumbItem base) (enumerate 0 crumbs)))]"

text \<open>
  A breadcrumb item in the words of the specification: \<open>position\<close> is the 1-based index
  and \<open>item\<close> the absolute form of the url.
\<close>

definition absoluteUrl :: "string \<Rightarrow> string \<Rightarrow> string" where
  "absoluteUrl base u = (if startsWith u ''http'' then u else base @ u)"

definition listItem :: "string \<Rightarrow> nat \<Rightarrow> Crumb \<Rightarrow> nat json" where
  "listItem base position crumb =
     JObj [
       (''@type'', JStr ''ListItem''),
       (''position'', JNum position),
       (''name'', JStr (Crumb.name crumb)),
       (''item'', JStr (absoluteUrl base (Crumb.url crumb)))]"

text \<open>The array \<open>structuredData\<close> before it is serialised.\<close>

definition structuredDataList :: "StructuredDataConfig \<Rightarrow> nat json list" where
  "structuredDataList config =
     (let structuredData0 = push [] [generateWebsiteSchema (StructuredDataConfig.baseUrl config) (siteSettings config)];
          structuredData1 =
            (case page config of
               None \<Rightarrow> structuredData0
             | Some p \<Rightarrow>
                 push structuredData0
                   [generateArticleSchema (StructuredDataConfig.baseUrl config) (siteSettings config) p]);
          structuredData2 =
            (case breadcrumbs config of
               None \<Rightarrow> structuredData1
             | Some bs \<Rightarrow>
                 if length bs > 0
                 then push structuredData1 [generateBreadcrumbSchema (StructuredDataConfig.baseUrl config) bs]
                 else structuredData1)
      in structuredData2)"

definition generateStructuredData :: "StructuredDataConfig \<Rightarrow> string" where
  "generateStructuredData config = JSON_stringify (JArr (structuredDataList config))"

text \<open>
  \<open>product.price && product.currency && {\<dots>}\<close>: the block is spread when the price is a
  truthy number and the currency a truthy string.
\<close>

definition truthyNumOpt :: "number option \<Rightarrow> bool" where
  "truthyNumOpt v = (case v of None \<Rightarrow> False | Some n \<Rightarrow> truthyNum n)"

definition numProp :: "string \<Rightarrow> number option \<Rightarrow> (string \<times> number json) list" where
  "numProp key v = (case v of None \<Rightarrow> [] | Some n \<Rightarrow> [(key, JNum n)])"

definition generateProductSchema :: "string \<Rightarrow> ProductData \<Rightarrow> number json" where
  "generateProductSchema base product =
     JObj (
       [(''@context'', JStr ''https://schema.org''),
        (''@type'', JStr ''Product''),
        (''name'', JStr (ProductData.name product)),
        (''description'', JStr (ProductData.description product)),
        (''url'', JStr base)]
       @ spreadIf (truthy (ProductData.image product)) (strProp ''image'' (ProductData.image product))
       @ spreadIf (truthyNumOpt (price product) \<and> truthy (currency product))
           [(''offers'', JObj (
              [(''@type'', JStr ''Offer'')]
              @ numProp ''price'' (price product)
              @ strProp ''priceCurrency'' (currency product)
              @ [(''availability'',
                    JStr (orElse (availability product) ''https://schema.org/InStock''))]))])"

text \<open>Reading a property of an object: the value of the first property with that key.\<close>

definition getProp :: "'n json \<Rightarrow> string \<Rightarrow> 'n json option" where
  "getProp v key = (case v of JObj kvs \<Rightarrow> map_of kvs key | _ \<Rightarrow> None)"

section \<open>The SEO-data deriver (\<open>utils/seo.ts\<close>)\<close>

datatype SEOType = type_page | type_home

text \<open>
  \<open>'title' in data\<close> and \<open>'slug' in data\<close> hold for a page and fail for site settings.
  The parameter \<open>type\<close> defaults to \<open>'home'\<close> when the caller leaves it out.
\<close>

definition hasPageProps :: "Data \<Rightarrow> bool" where
  "hasPageProps data = (case data of PageData _ \<Rightarrow> True | SiteData _ \<Rightarrow> False)"

definition generateSEO ::
  "Data \<Rightarrow> SiteSettings \<Rightarrow> SEOType option \<Rightarrow> string option \<Rightarrow> Crumb list option \<Rightarrow> SEOData"
where
  "generateSEO data s typeArg base crumbs =
     (let ty = (case typeArg of None \<Rightarrow> type_home | Some t \<Rightarrow> t);
          baseTitle = orElse (siteName s) ''Website'';
          baseDescription = orElse (siteDescription s) ''A modern website'';
          isPage = (ty = type_page \<and> hasPageProps data);
          title1 =
            (if isPage
             then orElse (seoField data SEOFields.title)
                    (interpolate (pageProp data Page.title) @ '' | '' @ baseTitle)
             else baseTitle);
          description1 =
            (if isPage
             then orElse (orOpt (seoField data SEOFields.description) (pagePropOpt data excerpt))
                    baseDescription
             else baseDescription);
          keywords1 = (if isPage then seoField data SEOFields.keywords else None);
          image1 =
            (if isPage
             then orOpt (map_option Media.url (seoField data SEOFields.image))
                        (map_option Media.url (pagePropOpt data featuredImage))
             else None);
          seoData = \<lparr>
            SEOData.title = orElse (Some title1) ''Website'',
            SEOData.description = orElse (Some description1) ''A modern website'',
            SEOData.keywords = keywords1,
            SEOData.image = image1,
            SEOData.url = (if ty = type_page \<and> hasPageProps data
                   then Some (interpolate base @ ''/pages/'' @ interpolate (pageProp data slug))
                   else base),
            type = Some (if ty = type_home then ''website'' else ''article''),
            structuredData = None \<rparr>
      in case base of
           None \<Rightarrow> seoData
         | Some b \<Rightarrow>
             if truthyStr b
             then seoData \<lparr> structuredData := Some (generateStructuredData \<lparr>
                    StructuredDataConfig.baseUrl = b,
                    siteSettings = s,
                    page = (if ty = type_page then Some data else None),
                    breadcrumbs = crumbs \<rparr>) \<rparr>
             else seoData)"

section \<open>Sitemap and robots.txt (\<open>utils/sitemap.ts\<close>)\<close>

text \<open>
  The sitemap builder uses the host's \<open>Date\<close>: \<open>now\<close> is the value of
  \<open>new Date().toISOString()\<close> at the call, and \<open>toISOString s\<close> is the value of
  \<open>new Date(s).toISOString()\<close>, which throws \<open>RangeError\<close> (here \<open>None\<close>) when \<open>s\<close>
  does not parse to a valid date.
\<close>

record Host =
  now :: string
  toISOString :: "string \<Rightarrow> string option"

datatype error = RangeError

text \<open>\<open>shouldIncludePage\<close>, with its three early returns.\<close>

definition shouldIncludePage :: "Page \<Rightarrow> bool" where
  "shouldIncludePage p =
     (if \<not> truthyStr (slug p) then False
      else if status p \<noteq> published then False
      else if Option.bind (seo p) noIndex = Some True then False
      else True)"

text \<open>The eligibility predicate in the words of the specification.\<close>

definition eligible :: "Page \<Rightarrow> bool" where
  "eligible p \<longleftrightarrow>
     slug p \<noteq> [] \<and> status p = published \<and> Option.bind (seo p) noIndex \<noteq> Some True"

text \<open>\<open>page.updatedAt || page.publishedDate || now\<close>\<close>

definition lastmodSource :: "Host \<Rightarrow> Page \<Rightarrow> string" where
  "lastmodSource h p = orElse (orOpt (Some (Page.updatedAt p)) (publishedDate p)) (now h)"

text \<open>
  The body of \<open>pages.forEach\<close>, over the array \<open>urls\<close>: an exception thrown for one page
  ends the whole call.
\<close>

fun forEachPage ::
  "Host \<Rightarrow> string \<Rightarrow> Changefreq \<Rightarrow> number \<Rightarrow> Page list \<Rightarrow> SitemapUrl list \<Rightarrow> error + SitemapUrl list"
where
  "forEachPage h base cf pr [] urls = Inr urls"
| "forEachPage h base cf pr (p # ps) urls =
     (if shouldIncludePage p
      then (let pageLoc = base @ ''/pages/'' @ slug p;
                stamp = lastmodSource h p
            in case toISOString h stamp of
                 None \<Rightarrow> Inl RangeError
               | Some isoText \<Rightarrow>
                   forEachPage h base cf pr ps
                     (push urls [\<lparr> loc = pageLoc, lastmod = isoText, changefreq = cf,
                                   priority = pr \<rparr>]))
      else forEachPage h base cf pr ps urls)"

text \<open>The configuration after destructuring, with the defaults of the source.\<close>

definition cfgBaseUrl :: "SitemapConfig \<Rightarrow> string" where
  "cfgBaseUrl c = (case SitemapConfig.baseUrl c of None \<Rightarrow> [] | Some b \<Rightarrow> b)"

definition cfgIncludeHomepage :: "SitemapConfig \<Rightarrow> bool" where
  "cfgIncludeHomepage c = (case includeHomepage c of None \<Rightarrow> True | Some b \<Rightarrow> b)"

definition cfgHomepagePriority :: "SitemapConfig \<Rightarrow> number" where
  "cfgHomepagePriority c = (case homepagePriority c of None \<Rightarrow> Finite 1 | Some n \<Rightarrow> n)"

definition cfgPagePriority :: "SitemapConfig \<Rightarrow> number" where
  "cfgPagePriority c = (case pagePriority c of None \<Rightarrow> Finite (4 / 5) | Some n \<Rightarrow> n)"

definition cfgDefaultChangefreq :: "SitemapConfig \<Rightarrow> Changefreq" where
  "cfgDefaultChangefreq c = (case defaultChangefreq c of None \<Rightarrow> weekly | Some f \<Rightarrow> f)"

definition emptyConfig :: SitemapConfig where
  "emptyConfig = \<lparr> SitemapConfig.baseUrl = None, includeHomepage = None, homepagePriority = None,
                   pagePriority = None, defaultChangefreq = None \<rparr>"

definition homepageEntries :: "Host \<Rightarrow> SitemapConfig \<Rightarrow> SitemapUrl list" where
  "homepageEntries h c =
     (if cfgIncludeHomepage c
      then push [] [\<lparr> loc = cfgBaseUrl c, lastmod = now h, changefreq = daily,
                      priority = cfgHomepagePriority c \<rparr>]
      else [])"

text \<open>The parameter \<open>config\<close> defaults to \<open>{}\<close>.\<close>

definition configOf :: "SitemapConfig option \<Rightarrow> SitemapConfig" where
  "configOf config = (case config of None \<Rightarrow> emptyConfig | Some c \<Rightarrow> c)"

definition generateSitemapUrls ::
  "Host \<Rightarrow> Page list \<Rightarrow> SiteSettings \<Rightarrow> SitemapConfig option \<Rightarrow> error + SitemapUrl list"
where
  "generateSitemapUrls h pages s config =
     (let c = configOf config
      in forEachPage h (cfgBaseUrl c) (cfgDefaultChangefreq c) (cfgPagePriority c) pages
           (homepageEntries h c))"

text \<open>
  \<open>isEntryFor h base cf pr u p\<close>: the entry \<open>u\<close> is the one the specification describes
  for the page \<open>p\<close>.
\<close>

definition isEntryFor :: "Host \<Rightarrow> string \<Rightarrow> Changefreq \<Rightarrow> number \<Rightarrow> SitemapUrl \<Rightarrow> Page \<Rightarrow> bool" where
  "isEntryFor h base cf pr u p \<longleftrightarrow>
     loc u = base @ ''/pages/'' @ slug p
     \<and> toISOString h (lastmodSource h p) = Some (lastmod u)
     \<and> changefreq u = cf \<and> priority u = pr"

definition escapeXml :: "string \<Rightarrow> string" where
  \<open>escapeXml text =
     replaceAll (CHR 0x27) ''&#39;''
       (replaceAll (CHR 0x22) ''&quot;''
         (replaceAll (CHR ''>'') ''&gt;''
           (replaceAll (CHR ''<'') ''&lt;''
             (replaceAll (CHR ''&'') ''&amp;'' text))))\<close>

definition changefreqName :: "Changefreq \<Rightarrow> string" where
  "changefreqName f =
     (case f of always \<Rightarrow> ''always'' | hourly \<Rightarrow> ''hourly'' | daily \<Rightarrow> ''daily''
      | weekly \<Rightarrow> ''weekly'' | monthly \<Rightarrow> ''monthly'' | yearly \<Rightarrow> ''yearly''
      | never \<Rightarrow> ''never'')"

text \<open>
  \<open>generateSitemapXML\<close>; the conversion of the number \<open>priority\<close> to text is the
  language's \<open>Number::toString\<close>, taken as the parameter \<open>numberToString\<close>.
\<close>

definition urlBlock :: "(number \<Rightarrow> string) \<Rightarrow> SitemapUrl \<Rightarrow> string" where
  \<open>urlBlock numberToString u =
       ''  <url>\<newline>''
     @ ''    <loc>'' @ escapeXml (loc u) @ ''</loc>\<newline>''
     @ ''    <lastmod>'' @ lastmod u @ ''</lastmod>\<newline>''
     @ ''    <changefreq>'' @ changefreqName (changefreq u) @ ''</changefreq>\<newline>''
     @ ''    <priority>'' @ numberToString (priority u) @ ''</priority>\<newline>''
     @ ''  </url>\<newline>''\<close>

definition generateSitemapXML :: "(number \<Rightarrow> string) \<Rightarrow> SitemapUrl list \<Rightarrow> string" where
  \<open>generateSitemapXML numberToString urls =
     foldl (\<lambda>xml u. xml @ urlBlock numberToString u)
       (''<?xml version="1.0" encoding="UTF-8"?>\<newline>''
        @ ''<urlset xmlns="http://www.sitemaps.org/schemas/sitemap/0.9">\<newline>'')
       urls
     @ ''</urlset>''\<close>

definition generateRobotsTxt :: "string \<Rightarrow> string" where
  \<open>generateRobotsTxt base =
       ''# Robots.txt\<newline>''
     @ ''# Generated automatically\<newline>\<newline>''
     @ ''User-agent: *\<newline>''
     @ ''Allow: /\<newline>\<newline>''
     @ ''# Disallow admin and API routes\<newline>''
     @ ''Disallow: /admin/\<newline>''
     @ ''Disallow: /api/\<newline>''
     @ ''Disallow: /_next/\<newline>''
     @ ''Disallow: /build/\<newline>''
     @ ''Disallow: /uploads/\<newline>\<newline>''
     @ ''# Sitemap\<newline>''
     @ ''Sitemap: '' @ base @ ''/sitemap.xml\<newline>''\<close>

text \<open>
  The behaviour of \<open>Date\<close> on the date strings of the examples, as a finite table: a
  timestamp in the form \<open>toISOString\<close> prints is returned as it is, and a date without a
  time is midnight UTC. The only other string the examples use is \<open>not-a-date\<close>, which
  is not in the table: it is an invalid date.
\<close>

definition exampleDates :: "string \<Rightarrow> string option" where
  "exampleDates = map_of [
     (''2024-01-01T00:00:00.000Z'', ''2024-01-01T00:00:00.000Z''),
     (''2024-03-05T12:00:00.000Z'', ''2024-03-05T12:00:00.000Z''),
     (''2025-07-01T08:30:00.000Z'', ''2025-07-01T08:30:00.000Z''),
     (''2024-02-10'', ''2024-02-10T00:00:00.000Z'')]"

definition exampleHost :: "string \<Rightarrow> Host" where
  "exampleHost t = \<lparr> now = t, toISOString = exampleDates \<rparr>"

section \<open>Example inputs\<close>

text \<open>Concrete pages and site settings on which the theorems below are evaluated.\<close>

definition aboutPage :: Page where
  "aboutPage = \<lparr> Page.id = ''1'', Page.title = ''About'', slug = ''about'', status = published,
     excerpt = Some ''desc'', featuredImage = None, seo = None, publishedDate = None,
     Page.createdAt = ''2024-01-01T00:00:00.000Z'',
     Page.updatedAt = ''2024-03-05T12:00:00.000Z'' \<rparr>"

definition acmeSite :: SiteSettings where
  "acmeSite = \<lparr> siteName = Some ''Acme'', siteDescription = None, logo = None,
     socialMedia = None, contactInfo = None \<rparr>"

definition bareSite :: SiteSettings where
  "bareSite = \<lparr> siteName = None, siteDescription = None, logo = None,
     socialMedia = None, contactInfo = None \<rparr>"

definition unnamedSite :: SiteSettings where
  "unnamedSite = \<lparr> siteName = Some [], siteDescription = None, logo = None,
     socialMedia = None, contactInfo = None \<rparr>"

definition customSeo :: SEOFields where
  "customSeo = \<lparr> SEOFields.title = Some ''Custom SEO Title'',
     SEOFields.description = Some ''Custom SEO description'',
     SEOFields.keywords = Some ''test, seo, page'', SEOFields.image = None,
     noIndex = None, noFollow = None \<rparr>"

definition sampleSeo :: SEOData where
  "sampleSeo = \<lparr> SEOData.title = ''A & B'', SEOData.description = ''d'',
     SEOData.keywords = Some ''k'', SEOData.image = Some ''i.png'', SEOData.url = None,
     type = None, structuredData = None \<rparr>"

definition draftPage :: Page where
  "draftPage = aboutPage \<lparr> slug := ''wip'', status := draft \<rparr>"

definition hiddenPage :: Page where
  "hiddenPage = aboutPage \<lparr> slug := ''hidden'', seo := Some (customSeo \<lparr> noIndex := Some True \<rparr>) \<rparr>"

definition newsPage :: Page where
  "newsPage = aboutPage \<lparr> slug := ''news'', Page.updatedAt := [], publishedDate := Some ''2024-02-10'' \<rparr>"

definition brokenPage :: Page where
  "brokenPage = aboutPage \<lparr> slug := ''broken'', Page.updatedAt := ''not-a-date'' \<rparr>"

definition noHomepage :: SitemapConfig where
  "noHomepage = emptyConfig \<lparr> SitemapConfig.baseUrl := Some ''https://acme.test'',
     includeHomepage := Some False \<rparr>"

definition julyHost :: Host where
  "julyHost = exampleHost ''2025-07-01T08:30:00.000Z''"

definition januaryHost :: Host where
  "januaryHost = exampleHost ''2024-01-01T00:00:00.000Z''"

definition homeCrumb :: Crumb where
  "homeCrumb = \<lparr> Crumb.name = ''Home'', Crumb.url = ''/'' \<rparr>"

definition docsCrumb :: Crumb where
  "docsCrumb = \<lparr> Crumb.name = ''Docs'', Crumb.url = ''https://docs.acme.test/start'' \<rparr>"

definition aboutConfig :: StructuredDataConfig where
  "aboutConfig = \<lparr> StructuredDataConfig.baseUrl = ''https://acme.test'', siteSettings = acmeSite,
     page = Some (PageData aboutPage), breadcrumbs = Some [homeCrumb, docsCrumb] \<rparr>"

definition giftCard :: ProductData where
  "giftCard = \<lparr> ProductData.name = ''Gift card'', ProductData.description = ''A gift card'',
     price = Some (Finite 25), currency = Some ''USD'', ProductData.image = None,
     availability = None \<rparr>"

section \<open>Properties of the escaping\<close>

lemma replaceAll_concat_map:
  "replaceAll c r (concat (map f xs)) = concat (map (\<lambda>x. replaceAll c r (f x)) xs)"
  by (induction xs) (simp_all add: replaceAll_def)

lemma replaceAll_as_concat: "replaceAll c r xs = concat (map (\<lambda>x. if x = c then r else [x]) xs)"
  by (simp add: replaceAll_def)

lemma escapeHtml_charwise: "escapeHtml xs = concat (map entityOf xs)"
proof -
  have step: "\<And>x. replaceAll (CHR 0x27) ''&#39;''
       (replaceAll (CHR 0x22) ''&quot;''
         (replaceAll (CHR ''>'') ''&gt;''
           (replaceAll (CHR ''<'') ''&lt;''
             (if x = CHR ''&'' then ''&amp;'' else [x])))) = entityOf x"
    by (simp add: replaceAll_def entityOf_def)
  have "escapeHtml xs =
      concat (map (\<lambda>x. replaceAll (CHR 0x27) ''&#39;''
       (replaceAll (CHR 0x22) ''&quot;''
         (replaceAll (CHR ''>'') ''&gt;''
           (replaceAll (CHR ''<'') ''&lt;''
             (if x = CHR ''&'' then ''&amp;'' else [x]))))) xs)"
    unfolding escapeHtml_def
    by (simp only: replaceAll_as_concat [of "CHR ''&''"] replaceAll_concat_map)
  then show ?thesis by (simp only: step)
qed

lemma escapeHtml_plain: "set xs \<inter> htmlSpecial = {} \<Longrightarrow> escapeHtml xs = xs"
  unfolding escapeHtml_charwise
  by (induction xs) (auto simp: entityOf_def htmlSpecial_def)

text \<open>
  C6. The escaping of the meta-tag renderer replaces each of the five characters
  \<open>&\<close>, \<open><\<close>, \<open>>\<close>, the double quote and the apostrophe by its entity and leaves every
  other character alone; a string with none of the five characters is returned
  unchanged; and \<open>A & B\<close> becomes \<open>A &amp; B\<close>.
\<close>

theorem C6_escapeHtml:
  \<open>escapeHtml xs = concat (map entityOf xs)
   \<and> (set xs \<inter> htmlSpecial = {} \<longrightarrow> escapeHtml xs = xs)
   \<and> escapeHtml ''A & B'' = ''A &amp; B''\<close>
proof -
  have "escapeHtml ''A & B'' = ''A &amp; B''"
    by (simp add: escapeHtml_charwise entityOf_def)
  then show ?thesis
    using escapeHtml_charwise escapeHtml_plain by blast
qed

theorem C6_escapeHtml_witness:
  \<open>set ''Acme Inc.'' \<inter> htmlSpecial = {} \<and> escapeHtml ''Acme Inc.'' = ''Acme Inc.''
   \<and> escapeHtml ''<a href="x">'' = ''&lt;a href=&quot;x&quot;&gt;''\<close>
proof -
  have h: "set ''Acme Inc.'' \<inter> htmlSpecial = {}"
    by (simp add: htmlSpecial_def)
  have e: "escapeHtml ''<a href=\"x\">'' = concat (map entityOf ''<a href=\"x\">'')"
    using C6_escapeHtml [of "''<a href=\"x\">''"] by blast
  show ?thesis
    using h C6_escapeHtml [of "''Acme Inc.''"] e by (simp add: entityOf_def)
qed

section \<open>The JSON parser reads back what \<open>JSON.stringify\<close> prints\<close>

declare showNat.simps [simp del]

lemma isWs_simps [simp]:
  "isWs (CHR '' '')" "isWs (CHR 0x0A)" "\<not> isWs (CHR '','')" "\<not> isWs (CHR '']'')"
  "\<not> isWs (CHR ''}'')" "\<not> isWs (CHR '':'')" "\<not> isWs (CHR ''['')" "\<not> isWs (CHR ''{'')"
  "\<not> isWs (CHR 0x22)"
  by (simp_all add: isWs_def)

lemma skipWs_Nil [simp]: "skipWs [] = []"
  by (simp add: skipWs_def)

lemma skipWs_Cons: "skipWs (c # cs) = (if isWs c then skipWs cs else c # cs)"
  by (simp add: skipWs_def)

lemma skipWs_ws: "\<forall>c\<in>set ws. isWs c \<Longrightarrow> skipWs (ws @ s) = skipWs s"
  by (induction ws) (simp_all add: skipWs_Cons)

lemma ws_newlineIndent: "\<forall>c\<in>set (newlineIndent k). isWs c"
  by (simp add: newlineIndent_def)

lemma skipWs_newlineIndent [simp]: "skipWs (newlineIndent k @ s) = skipWs s"
  by (rule skipWs_ws [OF ws_newlineIndent])

lemma parseValue_ws: "\<forall>c\<in>set ws. isWs c \<Longrightarrow> parseValue f (ws @ s) = parseValue f s"
  by (cases f) (simp_all add: skipWs_ws)

lemma parseElems_ws: "\<forall>c\<in>set ws. isWs c \<Longrightarrow> parseElems f (ws @ s) = parseElems f s"
  by (cases f) (simp_all add: parseValue_ws)

lemma parseMembers_ws: "\<forall>c\<in>set ws. isWs c \<Longrightarrow> parseMembers f (ws @ s) = parseMembers f s"
  by (cases f) (simp_all add: skipWs_ws)

subsection \<open>Numbers\<close>

lemma isDigit_digitChar: "d < 10 \<Longrightarrow> isDigit (digitChar d)"
  by (simp add: isDigit_def digitChar_def)

lemma digitVal_digitChar: "d < 10 \<Longrightarrow> of_char (digitChar d) - 48 = d"
  by (simp add: digitChar_def)

lemma showNat_digits: "\<forall>c\<in>set (showNat n). isDigit c"
proof (induction n rule: showNat.induct)
  case (1 n)
  show ?case
  proof (cases "n < 10")
    case True
    then show ?thesis by (simp add: showNat.simps [of n] isDigit_digitChar)
  next
    case False
    with 1 show ?thesis by (simp add: showNat.simps [of n] isDigit_digitChar)
  qed
qed

lemma showNat_nonempty: "showNat n \<noteq> []"
  by (simp add: showNat.simps [of n])

lemma readNat_snoc: "readNat (ds @ [d]) = 10 * readNat ds + (of_char d - 48)"
  by (simp add: readNat_def)

lemma readNat_showNat: "readNat (showNat n) = n"
proof (induction n rule: showNat.induct)
  case (1 n)
  show ?case
  proof (cases "n < 10")
    case True
    then show ?thesis by (simp add: showNat.simps [of n] readNat_def digitVal_digitChar)
  next
    case False
    with 1 show ?thesis
      by (simp add: showNat.simps [of n] readNat_snoc digitVal_digitChar)
  qed
qed

lemma digitChar_zero: "d < 10 \<Longrightarrow> digitChar d = CHR ''0'' \<longleftrightarrow> d = 0"
proof -
  assume d: "d < 10"
  have "digitChar d = CHR ''0'' \<longleftrightarrow> (of_char (digitChar d) :: nat) = of_char (CHR ''0'')"
    by (metis char_of_char)
  also have "\<dots> \<longleftrightarrow> d = 0" using d by (simp add: digitChar_def)
  finally show ?thesis .
qed

lemma showNat_no_leading_zero: "1 < length (showNat n) \<Longrightarrow> hd (showNat n) \<noteq> CHR ''0''"
proof (induction n rule: showNat.induct)
  case (1 n)
  show ?case
  proof (cases "n < 10")
    case True
    with 1(2) show ?thesis by (simp add: showNat.simps [of n])
  next
    case False
    note big = False
    show ?thesis
    proof (cases "n div 10 < 10")
      case True
      with big have "showNat n = [digitChar (n div 10), digitChar (n mod 10)]"
        by (simp add: showNat.simps [of n] showNat.simps [of "n div 10"])
      moreover from big have "n div 10 \<noteq> 0" by simp
      ultimately show ?thesis using True by (simp add: digitChar_zero)
    next
      case False
      then have "1 < length (showNat (n div 10))"
        by (simp add: showNat.simps [of "n div 10"] showNat_nonempty Suc_lessI)
      with 1(1) big have "hd (showNat (n div 10)) \<noteq> CHR ''0''" by simp
      with big show ?thesis
        by (simp add: showNat.simps [of n] showNat_nonempty)
    qed
  qed
qed

lemma delimited_simps [simp]:
  "delimited []" "delimited (CHR '','' # s)" "delimited (newlineIndent k @ s)"
  by (simp_all add: delimited_def newlineIndent_def)

lemma delimited_not_digit: "delimited (c # s) \<Longrightarrow> \<not> isDigit c"
  by (auto simp: delimited_def isDigit_def)

lemma parseNumber_showNat:
  assumes "delimited rest"
  shows "parseNumber (showNat n @ rest) = Some (JNum n, rest)"
proof -
  have tw: "takeWhile isDigit (showNat n @ rest) = showNat n"
    using assms showNat_digits [of n]
    by (cases rest) (auto simp: takeWhile_append2 dest: delimited_not_digit)
  have dw: "dropWhile isDigit (showNat n @ rest) = rest"
    using assms showNat_digits [of n]
    by (cases rest) (auto simp: dropWhile_append2 dest: delimited_not_digit)
  have r: "rest \<noteq> [] \<Longrightarrow> hd rest \<notin> {CHR ''.'', CHR ''e'', CHR ''E''}"
    using assms by (cases rest) (auto simp: delimited_def)
  show ?thesis
    unfolding parseNumber_def Let_def tw dw
    using r showNat_no_leading_zero [of n]
    by (auto simp: showNat_nonempty readNat_showNat)
qed

subsection \<open>Strings\<close>

lemma hexVal_hexChar: "d < 16 \<Longrightarrow> hexVal (hexChar d) = Some d"
  by (auto simp: hexVal_def hexChar_def Let_def)

lemma hex4_control:
  assumes "n < 32"
  shows "hex4 [CHR ''0'', CHR ''0'', hexChar (n div 16), hexChar (n mod 16)] = Some n"
proof -
  have a: "hexVal (hexChar (n div 16)) = Some (n div 16)"
    using assms by (intro hexVal_hexChar) simp
  have b: "hexVal (hexChar (n mod 16)) = Some (n mod 16)"
    by (intro hexVal_hexChar) simp
  have z: "hexVal (CHR ''0'') = Some 0" by (simp add: hexVal_def)
  show ?thesis by (simp add: hex4_def a b z)
qed

lemma parseChars_quoteChar: "parseChars (quoteChar c @ s) = consChar c (parseChars s)"
proof -
  consider (named) "c \<in> {CHR 0x08, CHR 0x09, CHR 0x0A, CHR 0x0C, CHR 0x0D, CHR 0x22, CHR 0x5C}"
    | (control) "c \<notin> {CHR 0x08, CHR 0x09, CHR 0x0A, CHR 0x0C, CHR 0x0D, CHR 0x22, CHR 0x5C}"
        "(of_char c :: nat) < 32"
    | (plain) "c \<notin> {CHR 0x08, CHR 0x09, CHR 0x0A, CHR 0x0C, CHR 0x0D, CHR 0x22, CHR 0x5C}"
        "\<not> (of_char c :: nat) < 32"
    by blast
  then show ?thesis
  proof cases
    case named
    then show ?thesis by (auto simp: quoteChar_def unescape_def)
  next
    case control
    from control show ?thesis
      by (simp add: quoteChar_def hex4_control [OF control(2)])
  next
    case plain
    then show ?thesis by (simp add: quoteChar_def)
  qed
qed

lemma parseChars_quoted:
  "parseChars (concat (map quoteChar s) @ CHR 0x22 # rest) = Some (s, rest)"
  by (induction s) (simp_all add: parseChars_quoteChar consChar_def)

subsection \<open>Values\<close>

lemma setProp_fresh: "k \<notin> fst ` set obj \<Longrightarrow> setProp k v obj = obj @ [(k, v)]"
  by (induction obj) auto

lemma foldl_setProp:
  "distinct (map fst (obj @ kvs)) \<Longrightarrow> foldl (\<lambda>obj (k, v). setProp k v obj) obj kvs = obj @ kvs"
proof (induction kvs arbitrary: obj)
  case Nil
  then show ?case by simp
next
  case (Cons kv kvs)
  obtain k v where kv: "kv = (k, v)" by (cases kv)
  from Cons.prems have fresh: "k \<notin> fst ` set obj" by (auto simp: kv)
  from Cons.prems have "distinct (map fst ((obj @ [(k, v)]) @ kvs))" by (simp add: kv)
  from Cons.IH [OF this] show ?case by (simp add: kv setProp_fresh [OF fresh])
qed

lemma objectOf_distinct: "distinct (map fst kvs) \<Longrightarrow> objectOf kvs = kvs"
  using foldl_setProp [of "[]" kvs] by (simp add: objectOf_def)

lemma isDigit_other:
  "isDigit c \<Longrightarrow> \<not> isWs c \<and> c \<noteq> CHR ''['' \<and> c \<noteq> CHR '']'' \<and> c \<noteq> CHR ''{'' \<and> c \<noteq> CHR ''}'' \<and> c \<noteq> CHR 0x22"
  by (auto simp: isDigit_def isWs_def)

lemma showNat_Cons: "\<exists>c cs. showNat n = c # cs \<and> isDigit c"
  using showNat_nonempty [of n] showNat_digits [of n] by (cases "showNat n") auto

lemma stringifyAt_start:
  "\<exists>c cs. stringifyAt ind v = c # cs \<and> \<not> isWs c \<and> c \<noteq> CHR '']'' \<and> c \<noteq> CHR ''}''"
proof (cases v)
  case (JNum n)
  then show ?thesis using showNat_Cons [of n] isDigit_other by auto
qed (auto simp: isWs_def quoteJSONString_def)

lemma skipWs_stringifyAt [simp]: "skipWs (stringifyAt ind v @ s) = stringifyAt ind v @ s"
  using stringifyAt_start [of ind v] by (auto simp: skipWs_Cons)

lemma parseElems_join:
  assumes IH: "\<And>v ind f rest. v \<in> set vs \<Longrightarrow> length (stringifyAt ind v) \<le> f \<Longrightarrow> delimited rest
                 \<Longrightarrow> parseValue f (stringifyAt ind v @ rest) = Some (v, rest)"
    and "vs \<noteq> []"
    and "length (join (CHR '','' # newlineIndent k) (map (stringifyAt k) vs)) < f"
  shows "parseElems f (join (CHR '','' # newlineIndent k) (map (stringifyAt k) vs)
                         @ newlineIndent j @ CHR '']'' # rest) = Some (vs, rest)"
  using assms
proof (induction vs arbitrary: f)
  case Nil
  then show ?case by simp
next
  case (Cons v vs)
  from Cons.prems(3) obtain f' where f: "f = Suc f'" by (cases f) auto
  show ?case
  proof (cases vs)
    case Nil
    from Cons.prems(3) have len: "length (stringifyAt k v) \<le> f'" by (simp add: Nil f)
    have "parseValue f' (stringifyAt k v @ newlineIndent j @ CHR '']'' # rest)
            = Some (v, newlineIndent j @ CHR '']'' # rest)"
      by (rule Cons.prems(1)) (simp_all add: len)
    then show ?thesis by (simp add: Nil f skipWs_Cons)
  next
    case (Cons w ws)
    let ?sep = "CHR '','' # newlineIndent k"
    let ?tail = "join ?sep (map (stringifyAt k) vs) @ newlineIndent j @ CHR '']'' # rest"
    from Cons.prems(3) have len: "length (stringifyAt k v) \<le> f'"
      and len': "length (join ?sep (map (stringifyAt k) vs)) < f'"
      by (simp_all add: Cons f)
    have head: "parseValue f' (stringifyAt k v @ CHR '','' # newlineIndent k @ ?tail)
            = Some (v, CHR '','' # newlineIndent k @ ?tail)"
      by (rule Cons.prems(1)) (simp_all add: len)
    have "parseElems f' ?tail = Some (vs, rest)"
      by (rule Cons.IH) (use Cons.prems(1) len' Cons in auto)
    then have tail: "parseElems f' (newlineIndent k @ ?tail) = Some (vs, rest)"
      by (simp add: parseElems_ws [OF ws_newlineIndent])
    have "join ?sep (map (stringifyAt k) (v # vs)) @ newlineIndent j @ CHR '']'' # rest
            = stringifyAt k v @ CHR '','' # newlineIndent k @ ?tail"
      by (simp add: Cons)
    then show ?thesis
      using head tail by (simp add: f skipWs_Cons)
  qed
qed

lemma parseMembers_join:
  assumes IH: "\<And>kv ind f rest. kv \<in> set kvs \<Longrightarrow> length (stringifyAt ind (snd kv)) \<le> f \<Longrightarrow> delimited rest
                 \<Longrightarrow> parseValue f (stringifyAt ind (snd kv) @ rest) = Some (snd kv, rest)"
    and "kvs \<noteq> []"
    and "length (join (CHR '','' # newlineIndent k) (map (memberText k) kvs)) < f"
  shows "parseMembers f (join (CHR '','' # newlineIndent k) (map (memberText k) kvs)
                         @ newlineIndent j @ CHR ''}'' # rest) = Some (kvs, rest)"
  using assms
proof (induction kvs arbitrary: f)
  case Nil
  then show ?case by simp
next
  case (Cons kv kvs)
  obtain key v where kv: "kv = (key, v)" by (cases kv)
  from Cons.prems(3) obtain f' where f: "f = Suc f'" by (cases f) auto
  have key: "\<And>s. parseChars (concat (map quoteChar key) @ CHR 0x22 # s) = Some (key, s)"
    by (rule parseChars_quoted)
  have sp: "\<And>s. parseValue f' (CHR '' '' # s) = parseValue f' s"
    using parseValue_ws [of "'' ''" f'] by simp
  show ?case
  proof (cases kvs)
    case Nil
    from Cons.prems(3) have len: "length (stringifyAt k v) \<le> f'"
      by (simp add: Nil f kv memberText_def)
    have "parseValue f' (stringifyAt k (snd kv) @ newlineIndent j @ CHR ''}'' # rest)
            = Some (snd kv, newlineIndent j @ CHR ''}'' # rest)"
      by (rule Cons.prems(1)) (simp_all add: len kv)
    then show ?thesis
      by (simp add: Nil f kv memberText_def quoteJSONString_def skipWs_Cons key sp)
  next
    case (Cons w ws)
    let ?sep = "CHR '','' # newlineIndent k"
    let ?tail = "join ?sep (map (memberText k) kvs) @ newlineIndent j @ CHR ''}'' # rest"
    from Cons.prems(3) have len: "length (stringifyAt k v) \<le> f'"
      and len': "length (join ?sep (map (memberText k) kvs)) < f'"
      by (simp_all add: Cons f kv memberText_def)
    have head: "parseValue f' (stringifyAt k (snd kv) @ CHR '','' # newlineIndent k @ ?tail)
            = Some (snd kv, CHR '','' # newlineIndent k @ ?tail)"
      by (rule Cons.prems(1)) (simp_all add: len kv)
    have "parseMembers f' ?tail = Some (kvs, rest)"
      by (rule Cons.IH) (use Cons.prems(1) len' Cons in auto)
    then have tail: "parseMembers f' (newlineIndent k @ ?tail) = Some (kvs, rest)"
      by (simp add: parseMembers_ws [OF ws_newlineIndent])
    have "join ?sep (map (memberText k) (kv # kvs)) @ newlineIndent j @ CHR ''}'' # rest
            = quoteJSONString key @ '': '' @ stringifyAt k v @ CHR '','' # newlineIndent k @ ?tail"
      by (simp add: Cons kv memberText_def)
    then show ?thesis
      using head tail by (simp add: f kv quoteJSONString_def skipWs_Cons key sp)
  qed
qed

lemma stringifyAt_JObj:
  "stringifyAt ind (JObj kvs) =
     (if kvs = [] then ''{}''
      else ''{'' @ newlineIndent (ind + 2)
           @ join (CHR '','' # newlineIndent (ind + 2)) (map (memberText (ind + 2)) kvs)
           @ newlineIndent ind @ ''}'')"
  by (simp add: memberText_def)

lemma join_map_start:
  assumes "vs \<noteq> []" and "\<And>v. \<exists>c cs. g v = c # cs \<and> P c"
  shows "\<exists>c cs. join sep (map g vs) @ s = c # cs \<and> P c"
proof -
  from assms(1) obtain v ws where vs: "vs = v # ws" by (cases vs) auto
  from assms(2) [of v] obtain c cs where "g v = c # cs" "P c" by blast
  then show ?thesis by (cases ws) (auto simp: vs)
qed

lemma parse_stringifyAt:
  "wellFormed v \<Longrightarrow> length (stringifyAt ind v) \<le> f \<Longrightarrow> delimited rest
     \<Longrightarrow> parseValue f (stringifyAt ind v @ rest) = Some (v, rest)"
proof (induction v arbitrary: ind f rest)
  case JNull
  then obtain f' where "f = Suc f'" by (cases f) auto
  then show ?case by (simp add: skipWs_Cons isWs_def isDigit_def parseLiteral_def)
next
  case (JBool b)
  then obtain f' where "f = Suc f'" by (cases f) (auto split: if_splits)
  then show ?case by (simp add: skipWs_Cons isWs_def isDigit_def parseLiteral_def)
next
  case (JNum n)
  from showNat_Cons [of n] obtain c cs where c: "showNat n = c # cs" "isDigit c" by blast
  with JNum obtain f' where f: "f = Suc f'" by (cases f) auto
  have "parseValue f ((c # cs) @ rest) = parseNumber ((c # cs) @ rest)"
    using isDigit_other [OF c(2)] c(2) by (simp add: f skipWs_Cons)
  then show ?case
    using parseNumber_showNat [OF JNum(3), of n] by (simp add: c(1))
next
  case (JStr s)
  then obtain f' where "f = Suc f'" by (cases f) (auto simp: quoteJSONString_def)
  then show ?case by (simp add: quoteJSONString_def skipWs_Cons parseChars_quoted)
next
  case (JArr vs)
  show ?case
  proof (cases "vs = []")
    case True
    with JArr.prems obtain f' where "f = Suc f'" by (cases f) auto
    with True show ?thesis by (simp add: skipWs_Cons)
  next
    case False
    let ?sep = "CHR '','' # newlineIndent (ind + 2)"
    let ?elems = "join ?sep (map (stringifyAt (ind + 2)) vs)"
    from JArr.prems(2) False obtain f' where f: "f = Suc f'" and len: "length ?elems < f'"
      by (cases f) auto
    have IH: "\<And>v ind f rest. v \<in> set vs \<Longrightarrow> length (stringifyAt ind v) \<le> f \<Longrightarrow> delimited rest
                 \<Longrightarrow> parseValue f (stringifyAt ind v @ rest) = Some (v, rest)"
      using JArr.IH JArr.prems(1) by simp
    have elems: "parseElems f' (?elems @ newlineIndent ind @ CHR '']'' # rest) = Some (vs, rest)"
      by (rule parseElems_join [OF IH False len])
    from join_map_start [where g = "stringifyAt (ind + 2)" and sep = ?sep
        and s = "newlineIndent ind @ CHR '']'' # rest", OF False stringifyAt_start]
    obtain d ds where d: "?elems @ newlineIndent ind @ CHR '']'' # rest = d # ds"
        "\<not> isWs d" "d \<noteq> CHR '']''"
      by blast
    have "parseValue f (stringifyAt ind (JArr vs) @ rest)
            = map_option (\<lambda>(vs, r). (JArr vs, r))
                (parseElems f' (newlineIndent (ind + 2) @ ?elems @ newlineIndent ind @ CHR '']'' # rest))"
      using False d by (simp add: f skipWs_Cons)
    then show ?thesis
      using elems by (simp add: parseElems_ws [OF ws_newlineIndent])
  qed
next
  case (JObj kvs)
  show ?case
  proof (cases "kvs = []")
    case True
    with JObj.prems obtain f' where "f = Suc f'" by (cases f) auto
    with True show ?thesis by (simp add: skipWs_Cons objectOf_def)
  next
    case False
    let ?sep = "CHR '','' # newlineIndent (ind + 2)"
    let ?mems = "join ?sep (map (memberText (ind + 2)) kvs)"
    from JObj.prems(2) False obtain f' where f: "f = Suc f'" and len: "length ?mems < f'"
      by (cases f) (auto simp: stringifyAt_JObj simp del: stringifyAt.simps)
    have IH: "\<And>kv ind f rest. kv \<in> set kvs \<Longrightarrow> length (stringifyAt ind (snd kv)) \<le> f
                 \<Longrightarrow> delimited rest
                 \<Longrightarrow> parseValue f (stringifyAt ind (snd kv) @ rest) = Some (snd kv, rest)"
    proof -
      fix kv :: "string \<times> nat json" and ind f rest
      assume kv: "kv \<in> set kvs" and l: "length (stringifyAt ind (snd kv)) \<le> f" and r: "delimited rest"
      obtain key v where p: "kv = (key, v)" by (cases kv)
      from kv JObj.prems(1) have wf: "wellFormed v" by (auto simp: p)
      have "v \<in> Basic_BNFs.snds kv" by (simp add: p)
      from JObj.IH [OF kv this wf] l r
      show "parseValue f (stringifyAt ind (snd kv) @ rest) = Some (snd kv, rest)"
        by (simp add: p)
    qed
    have mems: "parseMembers f' (?mems @ newlineIndent ind @ CHR ''}'' # rest) = Some (kvs, rest)"
      by (rule parseMembers_join [OF IH False len])
    have start: "\<And>kv. \<exists>c cs. memberText (ind + 2) kv = c # cs \<and> c = CHR 0x22"
      by (auto simp: memberText_def quoteJSONString_def)
    from join_map_start [where g = "memberText (ind + 2)" and sep = ?sep
        and s = "newlineIndent ind @ CHR ''}'' # rest" and P = "\<lambda>c. c = CHR 0x22", OF False start]
    obtain ds where d: "?mems @ newlineIndent ind @ CHR ''}'' # rest = CHR 0x22 # ds"
      by blast
    from JObj.prems(1) have dist: "objectOf kvs = kvs"
      by (simp add: objectOf_distinct)
    have "parseValue f (stringifyAt ind (JObj kvs) @ rest)
            = map_option (\<lambda>(kvs, r). (JObj (objectOf kvs), r))
                (parseMembers f' (newlineIndent (ind + 2) @ ?mems @ newlineIndent ind @ CHR ''}'' # rest))"
      using False d by (simp add: f skipWs_Cons stringifyAt_JObj del: stringifyAt.simps)
    then show ?thesis
      using mems dist by (simp add: parseMembers_ws [OF ws_newlineIndent])
  qed
qed

lemma JSON_parse_stringify: "wellFormed v \<Longrightarrow> JSON_parse (JSON_stringify v) = Some v"
  using parse_stringifyAt [of v 0 "length (stringifyAt 0 v)" "[]"]
  by (simp add: JSON_parse_def JSON_stringify_def)

section \<open>Properties of the SEO-data deriver\<close>

lemma orElse_nonempty: "b \<noteq> [] \<Longrightarrow> orElse a b \<noteq> []"
  by (simp add: orElse_def truthyStr_def split: option.splits)

lemma orElse_falsy: "\<not> truthy a \<Longrightarrow> orElse a b = b"
  by (simp add: orElse_def truthy_def split: option.splits)

lemma orElse_Some_nonempty: "x \<noteq> [] \<Longrightarrow> orElse (Some x) b = x"
  by (simp add: orElse_def truthyStr_def)

lemma generateSEO_title:
  "SEOData.title (generateSEO data s ty base crumbs) =
     orElse (Some (if ty = Some type_page \<and> hasPageProps data
                   then orElse (seoField data SEOFields.title)
                          (interpolate (pageProp data Page.title) @ '' | ''
                             @ orElse (siteName s) ''Website'')
                   else orElse (siteName s) ''Website'')) ''Website''"
  by (simp add: generateSEO_def Let_def split: option.splits)

lemma generateSEO_description:
  "SEOData.description (generateSEO data s ty base crumbs) =
     orElse (Some (if ty = Some type_page \<and> hasPageProps data
                   then orElse (orOpt (seoField data SEOFields.description) (pagePropOpt data excerpt))
                          (orElse (siteDescription s) ''A modern website'')
                   else orElse (siteDescription s) ''A modern website'')) ''A modern website''"
  by (simp add: generateSEO_def Let_def split: option.splits)

lemma generateSEO_url:
  "SEOData.url (generateSEO data s ty base crumbs) =
     (if ty = Some type_page \<and> hasPageProps data
      then Some (interpolate base @ ''/pages/'' @ interpolate (pageProp data slug))
      else base)"
  by (simp add: generateSEO_def Let_def split: option.splits)

text \<open>
  C1. Whatever the inputs, the title and the description returned by \<open>generateSEO\<close>
  are not empty. The chain of fallbacks ends in the literals: without a site name the
  title outside the page branch is \<open>Website\<close>, and without a page description, an
  excerpt and a site description the description is \<open>A modern website\<close>.
\<close>

theorem C1_title_description_nonempty:
  "SEOData.title (generateSEO data s ty base crumbs) \<noteq> []
   \<and> SEOData.description (generateSEO data s ty base crumbs) \<noteq> []
   \<and> (\<not> truthy (siteName s) \<and> \<not> (ty = Some type_page \<and> hasPageProps data)
        \<longrightarrow> SEOData.title (generateSEO data s ty base crumbs) = ''Website'')
   \<and> (\<not> truthy (seoField data SEOFields.description) \<and> \<not> truthy (pagePropOpt data excerpt)
        \<and> \<not> truthy (siteDescription s)
        \<longrightarrow> SEOData.description (generateSEO data s ty base crumbs) = ''A modern website'')"
proof (intro conjI impI)
  show "SEOData.title (generateSEO data s ty base crumbs) \<noteq> []"
    unfolding generateSEO_title by (rule orElse_nonempty) simp
  show "SEOData.description (generateSEO data s ty base crumbs) \<noteq> []"
    unfolding generateSEO_description by (rule orElse_nonempty) simp
next
  assume "\<not> truthy (siteName s) \<and> \<not> (ty = Some type_page \<and> hasPageProps data)"
  then show "SEOData.title (generateSEO data s ty base crumbs) = ''Website''"
    unfolding generateSEO_title by (auto simp: orElse_falsy orElse_Some_nonempty)
next
  assume "\<not> truthy (seoField data SEOFields.description) \<and> \<not> truthy (pagePropOpt data excerpt)
        \<and> \<not> truthy (siteDescription s)"
  then show "SEOData.description (generateSEO data s ty base crumbs) = ''A modern website''"
    unfolding generateSEO_description
    by (auto simp: orElse_falsy orElse_Some_nonempty orOpt_def)
qed

theorem C1_title_description_nonempty_witness:
  "\<not> truthy (siteName bareSite)
   \<and> \<not> truthy (seoField (SiteData bareSite) SEOFields.description)
   \<and> \<not> truthy (pagePropOpt (SiteData bareSite) excerpt)
   \<and> \<not> truthy (siteDescription bareSite)
   \<and> SEOData.title (generateSEO (SiteData bareSite) bareSite None None None) = ''Website''
   \<and> SEOData.description (generateSEO (SiteData bareSite) bareSite None None None)
        = ''A modern website''"
  using C1_title_description_nonempty [of "SiteData bareSite" bareSite None None None]
  by (simp add: bareSite_def truthy_def seoField_def pagePropOpt_def)

text \<open>
  C2 (as stated, refuted). With \<open>page.seo.title\<close> unset the title is not always
  \<open>{page.title} | {site.siteName}\<close>: without a site name, or with an empty one, the code
  puts \<open>Website\<close> after the bar.
\<close>

theorem C2_title_counterexample:
  "Option.bind (seo aboutPage) SEOFields.title = None
   \<and> SEOData.title (generateSEO (PageData aboutPage) bareSite (Some type_page)
         (Some ''https://acme.test'') None)
       \<noteq> Page.title aboutPage @ '' | '' @ interpolate (siteName bareSite)
   \<and> SEOData.title (generateSEO (PageData aboutPage) unnamedSite (Some type_page)
         (Some ''https://acme.test'') None)
       \<noteq> Page.title aboutPage @ '' | '' @ interpolate (siteName unnamedSite)"
  by (simp add: generateSEO_title aboutPage_def bareSite_def unnamedSite_def hasPageProps_def
      seoField_def pagePropOpt_def pageProp_def orElse_def truthyStr_def interpolate_def)

text \<open>
  C2 (amended). For a page and \<open>type = 'page'\<close>: a non-empty \<open>page.seo.title\<close> is
  returned verbatim; when \<open>page.seo.title\<close> is unset or empty the title is
  \<open>{page.title} | {B}\<close>, where \<open>B\<close> is the site name if that is set and non-empty and
  \<open>Website\<close> otherwise.
\<close>

theorem C2_title_amended:
  "(Option.bind (seo p) SEOFields.title = Some t \<and> t \<noteq> []
      \<longrightarrow> SEOData.title (generateSEO (PageData p) s (Some type_page) base None) = t)
   \<and> (\<not> truthy (Option.bind (seo p) SEOFields.title)
      \<longrightarrow> SEOData.title (generateSEO (PageData p) s (Some type_page) base None)
            = Page.title p @ '' | '' @ orElse (siteName s) ''Website'')
   \<and> (\<not> truthy (Option.bind (seo p) SEOFields.title) \<and> siteName s = Some n \<and> n \<noteq> []
      \<longrightarrow> SEOData.title (generateSEO (PageData p) s (Some type_page) base None)
            = Page.title p @ '' | '' @ n)"
  by (auto simp: generateSEO_title hasPageProps_def seoField_def pagePropOpt_def pageProp_def
      orElse_def truthy_def truthyStr_def interpolate_def split: option.splits)

theorem C2_title_amended_witness:
  "Option.bind (seo (aboutPage \<lparr> seo := Some customSeo \<rparr>)) SEOFields.title
      = Some ''Custom SEO Title''
   \<and> SEOData.title (generateSEO (PageData (aboutPage \<lparr> seo := Some customSeo \<rparr>)) acmeSite
        (Some type_page) (Some ''https://acme.test'') None) = ''Custom SEO Title''
   \<and> \<not> truthy (Option.bind (seo aboutPage) SEOFields.title)
   \<and> siteName acmeSite = Some ''Acme''
   \<and> SEOData.title (generateSEO (PageData aboutPage) acmeSite
        (Some type_page) (Some ''https://acme.test'') None) = ''About | Acme''
   \<and> SEOData.title (generateSEO (PageData aboutPage) bareSite
        (Some type_page) (Some ''https://acme.test'') None) = ''About | Website''"
  using C2_title_amended [of "aboutPage \<lparr> seo := Some customSeo \<rparr>" "''Custom SEO Title''"
          acmeSite "Some ''https://acme.test''" "''Acme''"]
        C2_title_amended [of aboutPage "''x''" acmeSite "Some ''https://acme.test''" "''Acme''"]
        C2_title_amended [of aboutPage "''x''" bareSite "Some ''https://acme.test''" "''Acme''"]
  by (simp add: aboutPage_def acmeSite_def bareSite_def customSeo_def truthy_def truthyStr_def
      orElse_def)

text \<open>
  C10. For a page, with \<open>type = 'page'\<close> and \<open>baseUrl\<close> left out, the returned \<open>url\<close> is
  present and is the text \<open>undefined/pages/{slug}\<close>.
\<close>

theorem C10_url_without_baseUrl:
  "SEOData.url (generateSEO (PageData p) s (Some type_page) None crumbs)
     = Some (''undefined/pages/'' @ slug p)"
  by (simp add: generateSEO_url hasPageProps_def pageProp_def interpolate_def)

theorem C10_url_without_baseUrl_witness:
  "SEOData.url (generateSEO (PageData aboutPage) acmeSite (Some type_page) None None)
     = Some ''undefined/pages/about''"
  using C10_url_without_baseUrl [of aboutPage acmeSite None]
  by (simp add: aboutPage_def)

section \<open>Properties of the meta-tag renderer\<close>

lemma metaTagList_tagOrder: "metaTagList s = tagOrder s"
  by (simp add: metaTagList_def tagOrder_def optionalTags_def push_def Let_def orElse_def
      truthyStr_def split: option.splits)

lemma hasTag_append: "hasTag p (xs @ ys) \<longleftrightarrow> hasTag p xs \<or> hasTag p ys"
  by (auto simp: hasTag_def)

lemma hasTag_Nil: "\<not> hasTag p []"
  by (simp add: hasTag_def)

lemma hasTag_Cons: "hasTag p (x # xs) \<longleftrightarrow> startsWith x p \<or> hasTag p xs"
  by (simp add: hasTag_def)

lemma hasTag_optionalTags:
  "hasTag p (optionalTags v f) \<longleftrightarrow> truthy v \<and> hasTag p (f (the v))"
  by (simp add: optionalTags_def truthy_def truthyStr_def hasTag_Nil split: option.splits)

lemma tag_keywords: \<open>hasTag ''<meta name="keywords"'' (tagOrder s) \<longleftrightarrow> truthy (SEOData.keywords s)\<close>
  by (simp add: tagOrder_def hasTag_append hasTag_Cons hasTag_Nil hasTag_optionalTags startsWith_def)

lemma tag_og_url: \<open>hasTag ''<meta property="og:url"'' (tagOrder s) \<longleftrightarrow> truthy (SEOData.url s)\<close>
  by (simp add: tagOrder_def hasTag_append hasTag_Cons hasTag_Nil hasTag_optionalTags startsWith_def)

lemma tag_og_image: \<open>hasTag ''<meta property="og:image"'' (tagOrder s) \<longleftrightarrow> truthy (SEOData.image s)\<close>
  by (simp add: tagOrder_def hasTag_append hasTag_Cons hasTag_Nil hasTag_optionalTags startsWith_def)

lemma tag_twitter_card: \<open>hasTag ''<meta name="twitter:card"'' (tagOrder s) \<longleftrightarrow> truthy (SEOData.image s)\<close>
  by (simp add: tagOrder_def hasTag_append hasTag_Cons hasTag_Nil hasTag_optionalTags startsWith_def)

lemma tag_twitter_image: \<open>hasTag ''<meta name="twitter:image"'' (tagOrder s) \<longleftrightarrow> truthy (SEOData.image s)\<close>
  by (simp add: tagOrder_def hasTag_append hasTag_Cons hasTag_Nil hasTag_optionalTags startsWith_def)

text \<open>
  C3. The string returned by \<open>generateMetaTags\<close> is the tags of \<open>tagOrder\<close> joined by a
  newline and four spaces: title, description, keywords iff \<open>seo.keywords\<close> is truthy,
  \<open>og:title\<close>, \<open>og:description\<close>, \<open>og:type\<close> (\<open>website\<close> when \<open>seo.type\<close> is absent), \<open>og:url\<close>
  iff \<open>seo.url\<close> is truthy, the triplet \<open>og:image\<close>, \<open>twitter:card\<close>, \<open>twitter:image\<close> iff
  \<open>seo.image\<close> is truthy, then \<open>twitter:title\<close> and \<open>twitter:description\<close>.
\<close>

theorem C3_meta_tag_order:
  \<open>generateMetaTags s = join ''\<newline>    '' (tagOrder s)
   \<and> (hasTag ''<meta name="keywords"'' (metaTagList s) \<longleftrightarrow> truthy (SEOData.keywords s))
   \<and> (hasTag ''<meta property="og:url"'' (metaTagList s) \<longleftrightarrow> truthy (SEOData.url s))
   \<and> (hasTag ''<meta property="og:image"'' (metaTagList s) \<longleftrightarrow> truthy (SEOData.image s))
   \<and> (hasTag ''<meta name="twitter:card"'' (metaTagList s) \<longleftrightarrow> truthy (SEOData.image s))
   \<and> (hasTag ''<meta name="twitter:image"'' (metaTagList s) \<longleftrightarrow> truthy (SEOData.image s))\<close>
  unfolding generateMetaTags_def metaTagList_tagOrder
  using tag_keywords tag_og_url tag_og_image tag_twitter_card tag_twitter_image by blast

theorem C3_meta_tag_order_witness:
  \<open>generateMetaTags sampleSeo =
       ''<title>A &amp; B</title>\<newline>    ''
     @ ''<meta name="description" content="d" />\<newline>    ''
     @ ''<meta name="keywords" content="k" />\<newline>    ''
     @ ''<meta property="og:title" content="A &amp; B" />\<newline>    ''
     @ ''<meta property="og:description" content="d" />\<newline>    ''
     @ ''<meta property="og:type" content="website" />\<newline>    ''
     @ ''<meta property="og:image" content="i.png" />\<newline>    ''
     @ ''<meta name="twitter:card" content="summary_large_image" />\<newline>    ''
     @ ''<meta name="twitter:image" content="i.png" />\<newline>    ''
     @ ''<meta name="twitter:title" content="A &amp; B" />\<newline>    ''
     @ ''<meta name="twitter:description" content="d" />''
   \<and> hasTag ''<meta name="keywords"'' (metaTagList sampleSeo)
   \<and> \<not> hasTag ''<meta property="og:url"'' (metaTagList sampleSeo)
   \<and> hasTag ''<meta name="twitter:card"'' (metaTagList sampleSeo)\<close>
  using C3_meta_tag_order [of sampleSeo]
  by (simp add: sampleSeo_def tagOrder_def optionalTags_def escapeHtml_charwise entityOf_def
      truthy_def truthyStr_def)

section \<open>Properties of the sitemap builder\<close>

lemma shouldIncludePage_eligible: "shouldIncludePage p \<longleftrightarrow> eligible p"
  by (simp add: shouldIncludePage_def eligible_def truthyStr_def)

lemma forEachPage_Inr:
  "forEachPage h base cf pr ps urls = Inr out
     \<Longrightarrow> \<exists>ents. out = urls @ ents \<and> list_all2 (isEntryFor h base cf pr) ents (filter eligible ps)"
proof (induction ps arbitrary: urls)
  case Nil
  then show ?case by simp
next
  case (Cons p ps)
  show ?case
  proof (cases "eligible p")
    case False
    with Cons show ?thesis by (simp add: shouldIncludePage_eligible)
  next
    case True
    with Cons.prems obtain t where t: "toISOString h (lastmodSource h p) = Some t"
      and rest: "forEachPage h base cf pr ps
          (urls @ [\<lparr> loc = base @ ''/pages/'' @ slug p, lastmod = t, changefreq = cf,
                     priority = pr \<rparr>]) = Inr out"
      by (auto simp: shouldIncludePage_eligible push_def Let_def split: option.splits)
    from Cons.IH [OF rest] obtain ents where
      "out = (urls @ [\<lparr> loc = base @ ''/pages/'' @ slug p, lastmod = t, changefreq = cf,
                     priority = pr \<rparr>]) @ ents"
      "list_all2 (isEntryFor h base cf pr) ents (filter eligible ps)"
      by blast
    moreover have "isEntryFor h base cf pr
        \<lparr> loc = base @ ''/pages/'' @ slug p, lastmod = t, changefreq = cf, priority = pr \<rparr> p"
      using t by (simp add: isEntryFor_def)
    ultimately show ?thesis
      using True
      by (intro exI [of _ "\<lparr> loc = base @ ''/pages/'' @ slug p, lastmod = t, changefreq = cf,
                     priority = pr \<rparr> # ents"]) simp
  qed
qed

lemma forEachPage_Inl:
  "forEachPage h base cf pr ps urls = Inl RangeError
     \<longleftrightarrow> (\<exists>p\<in>set ps. eligible p \<and> toISOString h (lastmodSource h p) = None)"
  by (induction ps arbitrary: urls)
     (auto simp: shouldIncludePage_eligible Let_def split: option.splits)

lemma forEachPage_total:
  "(\<forall>p\<in>set ps. eligible p \<longrightarrow> toISOString h (lastmodSource h p) \<noteq> None)
     \<Longrightarrow> \<exists>out. forEachPage h base cf pr ps urls = Inr out"
proof -
  assume ok: "\<forall>p\<in>set ps. eligible p \<longrightarrow> toISOString h (lastmodSource h p) \<noteq> None"
  show ?thesis
  proof (cases "forEachPage h base cf pr ps urls")
    case (Inl e)
    then have "forEachPage h base cf pr ps urls = Inl RangeError" by (cases e) simp
    with ok show ?thesis by (auto simp: forEachPage_Inl)
  next
    case (Inr out)
    then show ?thesis by blast
  qed
qed

lemma forEachPage_clock:
  assumes "toISOString h1 = toISOString h2"
    and "\<forall>p\<in>set ps. eligible p \<longrightarrow> truthyStr (Page.updatedAt p) \<or> truthy (publishedDate p)"
  shows "forEachPage h1 base cf pr ps urls = forEachPage h2 base cf pr ps urls"
  using assms(2)
proof (induction ps arbitrary: urls)
  case Nil
  then show ?case by simp
next
  case (Cons p ps)
  show ?case
  proof (cases "eligible p")
    case False
    with Cons show ?thesis by (simp add: shouldIncludePage_eligible)
  next
    case True
    with Cons.prems have "lastmodSource h1 p = lastmodSource h2 p"
      by (auto simp: lastmodSource_def orElse_def orOpt_def truthy_def split: option.splits)
    with Cons True show ?thesis
      by (simp add: shouldIncludePage_eligible assms(1) Let_def split: option.splits)
  qed
qed

text \<open>
  C4. Whenever \<open>generateSitemapUrls\<close> returns, its result is the optional homepage entry
  followed by one entry for each page that has a non-empty slug, is published and does
  not have \<open>seo.noIndex\<close> true, and for no other page, in the order of the input; and it
  returns whenever the date of every such page parses. \<open>shouldIncludePage\<close> is this
  predicate.
\<close>

theorem C4_sitemap_pages:
  "(\<forall>p. shouldIncludePage p \<longleftrightarrow>
        slug p \<noteq> [] \<and> status p = published \<and> Option.bind (seo p) noIndex \<noteq> Some True)
   \<and> (\<forall>urls. generateSitemapUrls h pages s config = Inr urls \<longrightarrow>
        (\<exists>ents. urls = homepageEntries h (configOf config) @ ents
           \<and> list_all2 (isEntryFor h (cfgBaseUrl (configOf config))
                 (cfgDefaultChangefreq (configOf config)) (cfgPagePriority (configOf config)))
               ents (filter eligible pages)))
   \<and> ((\<forall>p\<in>set pages. eligible p \<longrightarrow> toISOString h (lastmodSource h p) \<noteq> None)
        \<longrightarrow> (\<exists>urls. generateSitemapUrls h pages s config = Inr urls))"
proof (intro conjI allI impI)
  fix p
  show "shouldIncludePage p \<longleftrightarrow>
        slug p \<noteq> [] \<and> status p = published \<and> Option.bind (seo p) noIndex \<noteq> Some True"
    by (simp add: shouldIncludePage_eligible eligible_def)
next
  fix urls
  assume "generateSitemapUrls h pages s config = Inr urls"
  then show "\<exists>ents. urls = homepageEntries h (configOf config) @ ents
           \<and> list_all2 (isEntryFor h (cfgBaseUrl (configOf config))
                 (cfgDefaultChangefreq (configOf config)) (cfgPagePriority (configOf config)))
               ents (filter eligible pages)"
    unfolding generateSitemapUrls_def Let_def by (rule forEachPage_Inr)
next
  assume "\<forall>p\<in>set pages. eligible p \<longrightarrow> toISOString h (lastmodSource h p) \<noteq> None"
  then show "\<exists>urls. generateSitemapUrls h pages s config = Inr urls"
    unfolding generateSitemapUrls_def Let_def by (rule forEachPage_total)
qed

lemma example_eligible:
  "eligible aboutPage" "\<not> eligible draftPage" "\<not> eligible hiddenPage" "eligible newsPage"
  "eligible brokenPage" "\<not> eligible (brokenPage \<lparr> status := draft \<rparr>)"
  by (simp_all add: eligible_def aboutPage_def draftPage_def hiddenPage_def newsPage_def
      brokenPage_def customSeo_def)

lemma example_lastmod:
  "toISOString (exampleHost t) (lastmodSource (exampleHost t) aboutPage)
     = Some ''2024-03-05T12:00:00.000Z''"
  "toISOString (exampleHost t) (lastmodSource (exampleHost t) newsPage)
     = Some ''2024-02-10T00:00:00.000Z''"
  "toISOString (exampleHost t) (lastmodSource (exampleHost t) brokenPage) = None"
  by (simp_all add: exampleHost_def exampleDates_def lastmodSource_def orElse_def orOpt_def
      truthy_def truthyStr_def aboutPage_def newsPage_def brokenPage_def)

lemma example_run:
  "generateSitemapUrls (exampleHost t) [aboutPage, draftPage, hiddenPage, newsPage] acmeSite
       (Some noHomepage)
     = Inr [\<lparr> loc = ''https://acme.test/pages/about'', lastmod = ''2024-03-05T12:00:00.000Z'',
              changefreq = weekly, priority = Finite (4 / 5) \<rparr>,
            \<lparr> loc = ''https://acme.test/pages/news'', lastmod = ''2024-02-10T00:00:00.000Z'',
              changefreq = weekly, priority = Finite (4 / 5) \<rparr>]"
proof -
  have slugs: "slug aboutPage = ''about''" "slug newsPage = ''news''"
    by (simp_all add: aboutPage_def newsPage_def)
  show ?thesis
    by (simp add: generateSitemapUrls_def configOf_def homepageEntries_def noHomepage_def
        emptyConfig_def cfgIncludeHomepage_def cfgBaseUrl_def cfgDefaultChangefreq_def
        cfgPagePriority_def shouldIncludePage_eligible example_eligible example_lastmod
        slugs push_def Let_def)
qed

theorem C4_sitemap_pages_witness:
  "eligible aboutPage \<and> \<not> eligible draftPage \<and> \<not> eligible hiddenPage \<and> eligible newsPage
   \<and> toISOString julyHost (lastmodSource julyHost aboutPage) \<noteq> None
   \<and> toISOString julyHost (lastmodSource julyHost newsPage) \<noteq> None
   \<and> filter eligible [aboutPage, draftPage, hiddenPage, newsPage] = [aboutPage, newsPage]
   \<and> generateSitemapUrls julyHost [aboutPage, draftPage, hiddenPage, newsPage] acmeSite
        (Some noHomepage)
      = Inr [\<lparr> loc = ''https://acme.test/pages/about'', lastmod = ''2024-03-05T12:00:00.000Z'',
               changefreq = weekly, priority = Finite (4 / 5) \<rparr>,
             \<lparr> loc = ''https://acme.test/pages/news'', lastmod = ''2024-02-10T00:00:00.000Z'',
               changefreq = weekly, priority = Finite (4 / 5) \<rparr>]"
  using C4_sitemap_pages [of julyHost "[aboutPage, draftPage, hiddenPage, newsPage]" acmeSite
      "Some noHomepage"]
  by (simp add: julyHost_def example_eligible example_lastmod example_run)

text \<open>
  C8 (as stated, refuted). A page that would be listed and whose \<open>updatedAt\<close> does not
  parse makes \<open>generateSitemapUrls\<close> raise \<open>RangeError\<close>: no result is returned.
\<close>

theorem C8_malformed_date_counterexample:
  "shouldIncludePage brokenPage
   \<and> Page.updatedAt brokenPage = ''not-a-date''
   \<and> generateSitemapUrls julyHost [aboutPage, brokenPage] acmeSite None = Inl RangeError"
proof -
  have "generateSitemapUrls julyHost [aboutPage, brokenPage] acmeSite None = Inl RangeError"
    unfolding generateSitemapUrls_def Let_def forEachPage_Inl
    by (simp add: julyHost_def example_eligible example_lastmod)
  moreover have "Page.updatedAt brokenPage = ''not-a-date''"
    by (simp add: brokenPage_def)
  ultimately show ?thesis
    by (simp add: shouldIncludePage_eligible example_eligible)
qed

text \<open>
  C8 (amended). \<open>generateSitemapUrls\<close> neither validates nor catches: it raises
  \<open>RangeError\<close> exactly when some page that would be listed has a date (\<open>updatedAt\<close>, else
  \<open>publishedDate\<close>, else the current time) that does not parse, and returns a list of
  entries otherwise; the dates of pages that are not listed are never looked at.
\<close>

theorem C8_malformed_date_amended:
  "(generateSitemapUrls h pages s config = Inl RangeError
      \<longleftrightarrow> (\<exists>p\<in>set pages. eligible p \<and> toISOString h (lastmodSource h p) = None))
   \<and> ((\<forall>p\<in>set pages. eligible p \<longrightarrow> toISOString h (lastmodSource h p) \<noteq> None)
      \<longrightarrow> (\<exists>urls. generateSitemapUrls h pages s config = Inr urls))"
  unfolding generateSitemapUrls_def Let_def
  using forEachPage_Inl forEachPage_total by blast

theorem C8_malformed_date_amended_witness:
  "(\<exists>p\<in>set [aboutPage, brokenPage].
       eligible p \<and> toISOString julyHost (lastmodSource julyHost p) = None)
   \<and> generateSitemapUrls julyHost [aboutPage, brokenPage] acmeSite None = Inl RangeError
   \<and> toISOString julyHost (lastmodSource julyHost aboutPage) \<noteq> None
   \<and> \<not> eligible (brokenPage \<lparr> status := draft \<rparr>)
   \<and> (\<exists>urls. generateSitemapUrls julyHost [aboutPage, brokenPage \<lparr> status := draft \<rparr>]
                 acmeSite None = Inr urls)"
  using C8_malformed_date_amended [of julyHost "[aboutPage, brokenPage]" acmeSite None]
    C8_malformed_date_amended [of julyHost "[aboutPage, brokenPage \<lparr> status := draft \<rparr>]"
      acmeSite None]
  by (simp add: julyHost_def example_eligible example_lastmod)

text \<open>
  C9 (as stated, refuted). \<open>generateSitemapUrls\<close> reads the clock: the same arguments give
  different results at different times.
\<close>

theorem C9_clock_counterexample:
  "toISOString januaryHost = toISOString julyHost
   \<and> generateSitemapUrls januaryHost [] acmeSite None
       \<noteq> generateSitemapUrls julyHost [] acmeSite None"
  by (simp add: januaryHost_def julyHost_def exampleHost_def generateSitemapUrls_def
      configOf_def homepageEntries_def emptyConfig_def cfgIncludeHomepage_def push_def Let_def)

text \<open>
  C9 (amended). \<open>generateSEO\<close>, \<open>generateMetaTags\<close>, \<open>generateStructuredData\<close>,
  \<open>generateSitemapXML\<close> and \<open>generateRobotsTxt\<close> are functions of their arguments alone.
  \<open>generateSitemapUrls\<close> is a function of its arguments and of the host's \<open>Date\<close>: the
  current time enters its result through the homepage entry and through the pages
  that have neither \<open>updatedAt\<close> nor \<open>publishedDate\<close>. With \<open>includeHomepage\<close> false and a
  date on every listed page, two calls with equal arguments return equal results
  whatever the time.
\<close>

theorem C9_clock_amended:
  assumes "toISOString h1 = toISOString h2"
    and "\<not> cfgIncludeHomepage (configOf config)"
    and "\<forall>p\<in>set pages. eligible p \<longrightarrow> truthyStr (Page.updatedAt p) \<or> truthy (publishedDate p)"
  shows "generateSitemapUrls h1 pages s config = generateSitemapUrls h2 pages s config
         \<and> map_sum (\<lambda>e. e) (generateSitemapXML numberToString) (generateSitemapUrls h1 pages s config)
           = map_sum (\<lambda>e. e) (generateSitemapXML numberToString) (generateSitemapUrls h2 pages s config)"
proof -
  have "homepageEntries h1 (configOf config) = homepageEntries h2 (configOf config)"
    using assms(2) by (simp add: homepageEntries_def)
  then have "generateSitemapUrls h1 pages s config = generateSitemapUrls h2 pages s config"
    unfolding generateSitemapUrls_def Let_def
    using forEachPage_clock [OF assms(1) assms(3)] by simp
  then show ?thesis by simp
qed

theorem C9_clock_amended_witness:
  "toISOString januaryHost = toISOString julyHost
   \<and> \<not> cfgIncludeHomepage (configOf (Some noHomepage))
   \<and> truthyStr (Page.updatedAt aboutPage) \<and> \<not> eligible draftPage \<and> \<not> eligible hiddenPage
   \<and> truthy (publishedDate newsPage)
   \<and> generateSitemapUrls januaryHost [aboutPage, draftPage, hiddenPage, newsPage] acmeSite
        (Some noHomepage)
     = generateSitemapUrls julyHost [aboutPage, draftPage, hiddenPage, newsPage] acmeSite
        (Some noHomepage)"
proof -
  have a: "toISOString januaryHost = toISOString julyHost"
    by (simp add: januaryHost_def julyHost_def exampleHost_def)
  have b: "\<not> cfgIncludeHomepage (configOf (Some noHomepage))"
    by (simp add: configOf_def noHomepage_def emptyConfig_def cfgIncludeHomepage_def)
  have c: "\<forall>p\<in>set [aboutPage, draftPage, hiddenPage, newsPage].
        eligible p \<longrightarrow> truthyStr (Page.updatedAt p) \<or> truthy (publishedDate p)"
    by (simp add: example_eligible aboutPage_def newsPage_def truthyStr_def truthy_def)
  have d: "truthyStr (Page.updatedAt aboutPage)" "\<not> eligible draftPage" "\<not> eligible hiddenPage"
    "truthy (publishedDate newsPage)"
    by (simp_all add: example_eligible aboutPage_def newsPage_def truthyStr_def truthy_def)
  from C9_clock_amended [OF a b c, of acmeSite] a b d show ?thesis by blast
qed

section \<open>Properties of the structured-data builder\<close>

lemma wfProps_wellFormed: "wfProps ks kvs \<Longrightarrow> wellFormed (JObj kvs)"
  by (simp add: wfProps_def)

lemma wfProps_Nil: "wfProps ks []"
  by (simp add: wfProps_def)

lemma wfProps_single: "wellFormed v \<Longrightarrow> wfProps [k] [(k, v)]"
  by (simp add: wfProps_def)

lemma wfProps_append:
  "wfProps ks1 xs \<Longrightarrow> wfProps ks2 ys \<Longrightarrow> set ks1 \<inter> set ks2 = {}
     \<Longrightarrow> wfProps (ks1 @ ks2) (xs @ ys)"
  by (fastforce simp: wfProps_def)

lemma wfProps_Cons:
  "wellFormed v \<Longrightarrow> wfProps ks xs \<Longrightarrow> k \<notin> set ks \<Longrightarrow> wfProps (k # ks) ((k, v) # xs)"
  by (auto simp: wfProps_def)

lemma wfProps_strProp: "wfProps [k] (strProp k v)"
  by (simp add: strProp_def wfProps_def split: option.splits)

lemma wfProps_spreadIf: "wfProps ks xs \<Longrightarrow> wfProps ks (spreadIf c xs)"
  by (simp add: spreadIf_def wfProps_Nil)

lemma wfProps_logoProp: "wfProps [k] (logoProp k s)"
  by (simp add: logoProp_def wfProps_def split: option.splits)

lemma wellFormed_JStr [simp]: "wellFormed (JStr x)"
  by simp

lemma wfProps_sameAs:
  "wfProps [''sameAs'']
     (case sm of None \<Rightarrow> [] | Some (l :: (Platform \<times> string option) list) \<Rightarrow>
        [(''sameAs'', JArr (map JStr (filterBoolean (map snd l))))])"
  by (cases sm) (auto simp: wfProps_def)

lemma wfProps_contactPoint:
  "wfProps [''contactPoint'']
     (case ci of None \<Rightarrow> [] | Some c \<Rightarrow>
        [(''contactPoint'', JObj (
            [(''@type'', JStr ''ContactPoint'')]
            @ spreadIf (truthy (email c)) (strProp ''email'' (email c))
            @ spreadIf (truthy (phone c)) (strProp ''telephone'' (phone c))))])"
proof (cases ci)
  case None
  then show ?thesis by (simp add: wfProps_Nil)
next
  case (Some c)
  have "wfProps ([''@type''] @ [''email''] @ [''telephone''])
          ([(''@type'', JStr ''ContactPoint'')]
            @ spreadIf (truthy (email c)) (strProp ''email'' (email c))
            @ spreadIf (truthy (phone c)) (strProp ''telephone'' (phone c)))"
    by (intro wfProps_append wfProps_single wfProps_spreadIf wfProps_strProp) simp_all
  from wfProps_wellFormed [OF this] show ?thesis
    by (simp add: Some wfProps_def del: wellFormed.simps)
qed

lemma wellFormed_website: "wellFormed (generateWebsiteSchema base s :: 'n json)"
proof -
  have pub: "wfProps ([''@type'', ''name'', ''description'', ''url''] @ [''logo''] @ [''sameAs'']
                @ [''contactPoint''])
      ([(''@type'', JStr ''Organization''),
           (''name'', JStr (orElse (siteName s) ''Website'')),
           (''description'', JStr (orElse (siteDescription s) ''A modern website'')),
           (''url'', JStr base)]
          @ logoProp ''logo'' s
          @ (case socialMedia s of
               None \<Rightarrow> []
             | Some sm \<Rightarrow>
                 [(''sameAs'', JArr (map JStr (filterBoolean (map snd sm))))])
          @ (case contactInfo s of
               None \<Rightarrow> []
             | Some ci \<Rightarrow>
                 [(''contactPoint'', JObj (
                    [(''@type'', JStr ''ContactPoint'')]
                    @ spreadIf (truthy (email ci)) (strProp ''email'' (email ci))
                    @ spreadIf (truthy (phone ci)) (strProp ''telephone'' (phone ci))))])
       :: (string \<times> 'n json) list)"
    by (intro wfProps_append wfProps_logoProp wfProps_sameAs wfProps_contactPoint)
       (simp_all add: wfProps_def)
  have act: "wellFormed (JObj [
          (''@type'', JStr ''SearchAction''),
          (''target'', JObj [
             (''@type'', JStr ''EntryPoint''),
             (''urlTemplate'', JStr (base @ ''/search?q={search_term_string}''))]),
          (''query-input'', JStr ''required name=search_term_string'')] :: 'n json)"
    by simp
  show ?thesis
    unfolding generateWebsiteSchema_def
    apply (rule wfProps_wellFormed [where ks = "[''@context'', ''@type'', ''name'',
              ''description'', ''url'', ''publisher'', ''potentialAction'']"])
    apply (intro wfProps_Cons wfProps_Nil wellFormed_JStr wfProps_wellFormed [OF pub] act)
    apply simp_all
    done
qed

lemma wfProps_fixed2: "wellFormed a \<Longrightarrow> wellFormed b \<Longrightarrow> j \<noteq> k \<Longrightarrow> wfProps [j, k] [(j, a), (k, b)]"
  by (simp add: wfProps_def)

lemma wfProps_fixed3:
  "wellFormed a \<Longrightarrow> wellFormed b \<Longrightarrow> wellFormed c \<Longrightarrow> distinct [i, j, k]
     \<Longrightarrow> wfProps [i, j, k] [(i, a), (j, b), (k, c)]"
  by (simp add: wfProps_def)

lemma wfProps_image:
  "wfProps [''image'']
     (case fi of None \<Rightarrow> [] | Some m \<Rightarrow>
        [(''image'', JObj (
            [(''@type'', JStr ''ImageObject''),
             (''url'', JStr (Media.url m))]
            @ spreadIf (truthy (alt m)) (strProp ''caption'' (alt m))))])"
proof (cases fi)
  case None
  then show ?thesis by (simp add: wfProps_Nil)
next
  case (Some m)
  have "wfProps ([''@type'', ''url''] @ [''caption''])
          ([(''@type'', JStr ''ImageObject''), (''url'', JStr (Media.url m))]
            @ spreadIf (truthy (alt m)) (strProp ''caption'' (alt m)))"
    by (intro wfProps_append wfProps_fixed2 wfProps_spreadIf wfProps_strProp) simp_all
  from wfProps_wellFormed [OF this] show ?thesis
    by (simp add: Some wfProps_def del: wellFormed.simps)
qed

lemma wellFormed_article: "wellFormed (generateArticleSchema base s pg :: 'n json)"
proof -
  have author: "wellFormed (JObj [
              (''@type'', JStr ''Organization''),
              (''name'', JStr (orElse (siteName s) ''Website'')),
              (''url'', JStr base)] :: 'n json)"
    by simp
  have "wfProps ([''@type'', ''name'', ''url''] @ [''logo''])
          ([(''@type'', JStr ''Organization''),
            (''name'', JStr (orElse (siteName s) ''Website'')),
            (''url'', JStr base)]
           @ logoProp ''logo'' s :: (string \<times> 'n json) list)"
    by (intro wfProps_append wfProps_fixed3 wfProps_logoProp) simp_all
  then have publisher: "wellFormed (JObj (
          [(''@type'', JStr ''Organization''),
            (''name'', JStr (orElse (siteName s) ''Website'')),
            (''url'', JStr base)]
           @ logoProp ''logo'' s) :: 'n json)"
    by (rule wfProps_wellFormed)
  have main: "\<And>u. wellFormed (JObj [(''@type'', JStr ''WebPage''), (''@id'', JStr u)] :: 'n json)"
    by simp
  show ?thesis
    unfolding generateArticleSchema_def Let_def
    apply (rule wfProps_wellFormed [where ks = "[''@context'', ''@type''] @ [''headline'']
              @ [''description'', ''url''] @ [''datePublished''] @ [''dateModified'']
              @ [''author'', ''publisher'', ''mainEntityOfPage''] @ [''image'']
              @ [''keywords'']"])
    apply (intro wfProps_append wfProps_fixed2 wfProps_fixed3 wfProps_strProp wfProps_spreadIf
             wfProps_image wellFormed_JStr author publisher main)
    apply simp_all
    done
qed

lemma wellFormed_breadcrumb: "wellFormed (generateBreadcrumbSchema base bs)"
  by (auto simp: generateBreadcrumbSchema_def breadcrumbItem_def)

lemma wellFormed_structuredData: "wellFormed (JArr (structuredDataList c))"
  by (simp add: structuredDataList_def push_def Let_def wellFormed_website wellFormed_article
      wellFormed_breadcrumb split: option.splits del: wellFormed.simps(2))

lemma parse_generateStructuredData:
  "JSON_parse (generateStructuredData c) = Some (JArr (structuredDataList c))"
  unfolding generateStructuredData_def
  by (rule JSON_parse_stringify [OF wellFormed_structuredData])

lemma enumerate_positions:
  "map (\<lambda>(index, x). g (index + 1) x) (enumerate n xs)
     = map (\<lambda>(position, x). g position x) (zip [Suc n..<Suc (n + length xs)] xs)"
proof -
  have "map (\<lambda>(position, x). g position x) (zip (map Suc [n..<n + length xs]) xs)
          = map (\<lambda>(index, x). g (index + 1) x) (zip [n..<n + length xs] xs)"
    by (simp add: zip_map1 case_prod_unfold)
  then show ?thesis
    by (simp only: enumerate_eq_zip map_Suc_upt)
qed

lemma structuredDataList_shape:
  "structuredDataList c =
     generateWebsiteSchema (StructuredDataConfig.baseUrl c) (siteSettings c)
     # (case page c of None \<Rightarrow> []
        | Some p \<Rightarrow> [generateArticleSchema (StructuredDataConfig.baseUrl c) (siteSettings c) p])
     @ (case breadcrumbs c of None \<Rightarrow> []
        | Some bs \<Rightarrow> if bs = [] then []
                     else [generateBreadcrumbSchema (StructuredDataConfig.baseUrl c) bs])"
  by (simp add: structuredDataList_def push_def Let_def split: option.splits)

lemma website_type:
  "getProp (generateWebsiteSchema base s) ''@type'' = Some (JStr ''WebSite'')"
  by (simp add: generateWebsiteSchema_def getProp_def)

lemma breadcrumb_props:
  "getProp (generateBreadcrumbSchema base bs) ''@type'' = Some (JStr ''BreadcrumbList'')"
  "getProp (generateBreadcrumbSchema base bs) ''itemListElement''
     = Some (JArr (map (\<lambda>(position, crumb). listItem base position crumb)
                     (zip [1..<Suc (length bs)] bs)))"
proof -
  show "getProp (generateBreadcrumbSchema base bs) ''@type'' = Some (JStr ''BreadcrumbList'')"
    by (simp add: generateBreadcrumbSchema_def getProp_def)
  have "map (breadcrumbItem base) (enumerate 0 bs)
          = map (\<lambda>(index, crumb). listItem base (index + 1) crumb) (enumerate 0 bs)"
    by (simp add: breadcrumbItem_def listItem_def absoluteUrl_def)
  also have "\<dots> = map (\<lambda>(position, crumb). listItem base position crumb)
                     (zip [1..<Suc (length bs)] bs)"
    using enumerate_positions [of "listItem base" 0 bs] by simp
  finally show "getProp (generateBreadcrumbSchema base bs) ''itemListElement''
     = Some (JArr (map (\<lambda>(position, crumb). listItem base position crumb)
                     (zip [1..<Suc (length bs)] bs)))"
    by (simp add: generateBreadcrumbSchema_def getProp_def)
qed

text \<open>
  C5. The string returned by \<open>generateStructuredData\<close> parses to an array whose first
  element has \<open>@type\<close> \<open>WebSite\<close>. With a non-empty list of breadcrumbs the array ends
  with a \<open>BreadcrumbList\<close> whose \<open>itemListElement\<close> lists the breadcrumbs in the given
  order, the \<open>position\<close>s counting from 1, each \<open>item\<close> being the breadcrumb's url if that
  starts with \<open>http\<close> and \<open>baseUrl\<close> followed by the url otherwise.
\<close>

theorem C5_structured_data:
  "\<exists>site rest.
     JSON_parse (generateStructuredData c) = Some (JArr (site # rest))
     \<and> getProp site ''@type'' = Some (JStr ''WebSite'')
     \<and> (\<forall>bs. breadcrumbs c = Some bs \<and> bs \<noteq> [] \<longrightarrow>
           rest \<noteq> []
           \<and> getProp (last rest) ''@type'' = Some (JStr ''BreadcrumbList'')
           \<and> getProp (last rest) ''itemListElement''
               = Some (JArr (map (\<lambda>(position, crumb).
                                    listItem (StructuredDataConfig.baseUrl c) position crumb)
                               (zip [1..<Suc (length bs)] bs))))"
proof (intro exI conjI allI impI)
  show "JSON_parse (generateStructuredData c)
          = Some (JArr (generateWebsiteSchema (StructuredDataConfig.baseUrl c) (siteSettings c)
                        # tl (structuredDataList c)))"
    by (simp add: parse_generateStructuredData structuredDataList_shape)
  show "getProp (generateWebsiteSchema (StructuredDataConfig.baseUrl c) (siteSettings c)) ''@type''
          = Some (JStr ''WebSite'')"
    by (rule website_type)
next
  fix bs
  assume "breadcrumbs c = Some bs \<and> bs \<noteq> []"
  then have l: "tl (structuredDataList c) \<noteq> []
      \<and> last (tl (structuredDataList c))
          = generateBreadcrumbSchema (StructuredDataConfig.baseUrl c) bs"
    by (simp add: structuredDataList_shape)
  from l show "tl (structuredDataList c) \<noteq> []" by simp
  from l show "getProp (last (tl (structuredDataList c))) ''@type'' = Some (JStr ''BreadcrumbList'')"
    by (simp add: breadcrumb_props)
  from l show "getProp (last (tl (structuredDataList c))) ''itemListElement''
               = Some (JArr (map (\<lambda>(position, crumb).
                                    listItem (StructuredDataConfig.baseUrl c) position crumb)
                               (zip [1..<Suc (length bs)] bs)))"
    by (simp add: breadcrumb_props)
qed

theorem C5_structured_data_witness:
  "breadcrumbs aboutConfig = Some [homeCrumb, docsCrumb]
   \<and> (\<exists>site rest.
        JSON_parse (generateStructuredData aboutConfig) = Some (JArr (site # rest))
        \<and> getProp site ''@type'' = Some (JStr ''WebSite'')
        \<and> getProp (last rest) ''itemListElement''
            = Some (JArr [
                JObj [(''@type'', JStr ''ListItem''), (''position'', JNum 1),
                      (''name'', JStr ''Home''), (''item'', JStr ''https://acme.test/'')],
                JObj [(''@type'', JStr ''ListItem''), (''position'', JNum 2),
                      (''name'', JStr ''Docs''),
                      (''item'', JStr ''https://docs.acme.test/start'')]]))"
proof -
  have b: "breadcrumbs aboutConfig = Some [homeCrumb, docsCrumb]"
    by (simp add: aboutConfig_def)
  from C5_structured_data [of aboutConfig] obtain site rest where
    p: "JSON_parse (generateStructuredData aboutConfig) = Some (JArr (site # rest))"
    and t: "getProp site ''@type'' = Some (JStr ''WebSite'')"
    and i: "\<forall>bs. breadcrumbs aboutConfig = Some bs \<and> bs \<noteq> [] \<longrightarrow>
           rest \<noteq> []
           \<and> getProp (last rest) ''@type'' = Some (JStr ''BreadcrumbList'')
           \<and> getProp (last rest) ''itemListElement''
               = Some (JArr (map (\<lambda>(position, crumb).
                                    listItem (StructuredDataConfig.baseUrl aboutConfig) position crumb)
                               (zip [1..<Suc (length bs)] bs)))"
    by blast
  from i b have "getProp (last rest) ''itemListElement''
               = Some (JArr (map (\<lambda>(position, crumb).
                                    listItem (StructuredDataConfig.baseUrl aboutConfig) position crumb)
                               (zip [1..<Suc (length [homeCrumb, docsCrumb])]
                                  [homeCrumb, docsCrumb])))"
    by simp
  moreover have "[1..<Suc (length [homeCrumb, docsCrumb])] = [1, 2]"
    by (simp add: upt_rec)
  ultimately have "getProp (last rest) ''itemListElement''
            = Some (JArr [
                JObj [(''@type'', JStr ''ListItem''), (''position'', JNum 1),
                      (''name'', JStr ''Home''), (''item'', JStr ''https://acme.test/'')],
                JObj [(''@type'', JStr ''ListItem''), (''position'', JNum 2),
                      (''name'', JStr ''Docs''),
                      (''item'', JStr ''https://docs.acme.test/start'')]])"
    by (simp add: listItem_def absoluteUrl_def startsWith_def aboutConfig_def homeCrumb_def
        docsCrumb_def)
  with b p t show ?thesis by blast
qed

lemma product_offers:
  "getProp (generateProductSchema base p) ''offers'' =
     (if truthyNumOpt (price p) \<and> truthy (currency p)
      then Some (JObj (
              [(''@type'', JStr ''Offer'')]
              @ numProp ''price'' (price p)
              @ strProp ''priceCurrency'' (currency p)
              @ [(''availability'',
                    JStr (orElse (availability p) ''https://schema.org/InStock''))]))
      else None)"
  by (cases "ProductData.image p")
     (simp_all add: generateProductSchema_def getProp_def spreadIf_def strProp_def)

lemma offer_availability:
  "getProp (JObj (
              (''@type'', JStr ''Offer'')
              # numProp ''price'' pr
              @ strProp ''priceCurrency'' cu
              @ [(''availability'', JStr a)])) ''availability'' = Some (JStr a)"
  by (simp add: getProp_def numProp_def strProp_def split: option.splits)

lemma offer_type:
  "getProp (JObj ((''@type'', JStr ''Offer'') # rest)) ''@type'' = Some (JStr ''Offer'')"
  by (simp add: getProp_def)

text \<open>
  C7 (as stated, refuted). A product whose price and currency are both present, the
  currency being the empty string, gets no \<open>offers\<close> block, and neither does one whose
  price is \<open>0\<close>; an \<open>availability\<close> that is present but empty is replaced by the
  default.
\<close>

theorem C7_offers_counterexample:
  "price (giftCard \<lparr> currency := Some [] \<rparr>) = Some (Finite 25)
   \<and> currency (giftCard \<lparr> currency := Some [] \<rparr>) = Some []
   \<and> getProp (generateProductSchema ''https://acme.test'' (giftCard \<lparr> currency := Some [] \<rparr>))
        ''offers'' = None
   \<and> price (giftCard \<lparr> price := Some (Finite 0) \<rparr>) = Some (Finite 0)
   \<and> currency (giftCard \<lparr> price := Some (Finite 0) \<rparr>) = Some ''USD''
   \<and> getProp (generateProductSchema ''https://acme.test''
                (giftCard \<lparr> price := Some (Finite 0) \<rparr>)) ''offers'' = None
   \<and> availability (giftCard \<lparr> availability := Some [] \<rparr>) = Some []
   \<and> Option.bind
        (getProp (generateProductSchema ''https://acme.test''
                    (giftCard \<lparr> availability := Some [] \<rparr>)) ''offers'')
        (\<lambda>offers. getProp offers ''availability'')
       = Some (JStr ''https://schema.org/InStock'')"
  by (simp add: product_offers offer_availability giftCard_def truthy_def truthyStr_def
      truthyNumOpt_def orElse_def)

text \<open>
  C7 (amended). For a product whose price is absent or a number other than \<open>0\<close> and
  \<open>NaN\<close>: the object returned by \<open>generateProductSchema\<close> has an \<open>offers\<close> block exactly
  when the price is present and the currency is a non-empty string; the block is an
  \<open>Offer\<close> whose \<open>availability\<close> is \<open>product.availability\<close> when that is a non-empty
  string and \<open>https://schema.org/InStock\<close> otherwise.
\<close>

theorem C7_offers_amended:
  assumes "price p \<noteq> Some (Finite 0)" and "price p \<noteq> Some NaN"
  shows "(getProp (generateProductSchema base p) ''offers'' \<noteq> None
            \<longleftrightarrow> price p \<noteq> None \<and> truthy (currency p))
         \<and> (\<forall>offers. getProp (generateProductSchema base p) ''offers'' = Some offers \<longrightarrow>
               getProp offers ''@type'' = Some (JStr ''Offer'')
               \<and> getProp offers ''availability''
                   = Some (JStr (orElse (availability p) ''https://schema.org/InStock'')))"
proof -
  have "truthyNumOpt (price p) \<longleftrightarrow> price p \<noteq> None"
  proof (cases "price p")
    case None
    then show ?thesis by (simp add: truthyNumOpt_def)
  next
    case (Some n)
    with assms show ?thesis by (cases n) (simp_all add: truthyNumOpt_def)
  qed
  then have offers: "getProp (generateProductSchema base p) ''offers'' =
     (if price p \<noteq> None \<and> truthy (currency p)
      then Some (JObj (
              [(''@type'', JStr ''Offer'')]
              @ numProp ''price'' (price p)
              @ strProp ''priceCurrency'' (currency p)
              @ [(''availability'',
                    JStr (orElse (availability p) ''https://schema.org/InStock''))]))
      else None)"
    by (simp add: product_offers)
  show ?thesis
  proof (cases "price p \<noteq> None \<and> truthy (currency p)")
    case True
    then show ?thesis
      unfolding offers by (simp add: offer_availability offer_type)
  next
    case False
    then show ?thesis
      unfolding offers by auto
  qed
qed

theorem C7_offers_amended_witness:
  "price giftCard \<noteq> Some (Finite 0) \<and> price giftCard \<noteq> Some NaN
   \<and> price giftCard \<noteq> None \<and> truthy (currency giftCard)
   \<and> getProp (generateProductSchema ''https://acme.test'' giftCard) ''offers''
       = Some (JObj [(''@type'', JStr ''Offer''), (''price'', JNum (Finite 25)),
                     (''priceCurrency'', JStr ''USD''),
                     (''availability'', JStr ''https://schema.org/InStock'')])
   \<and> getProp (generateProductSchema ''https://acme.test'' (giftCard \<lparr> price := None \<rparr>))
        ''offers'' = None"
proof -
  have a: "price giftCard \<noteq> Some (Finite 0)" "price giftCard \<noteq> Some NaN"
    by (simp_all add: giftCard_def)
  have b: "price (giftCard \<lparr> price := None \<rparr>) \<noteq> Some (Finite 0)"
    "price (giftCard \<lparr> price := None \<rparr>) \<noteq> Some NaN"
    by simp_all
  from C7_offers_amended [OF a, of "''https://acme.test''"]
    C7_offers_amended [OF b, of "''https://acme.test''"]
  show ?thesis
    by (simp add: product_offers giftCard_def truthy_def truthyStr_def truthyNumOpt_def
        numProp_def strProp_def orElse_def)
qed

end
